theory Spec2Isabelle
  imports Complex_Main "HOL-Library.Char_ord" "HOL-Library.List_Lexorder" "HOL-Library.Log_Nat"
begin

section \<open>Numbers\<close>

text \<open>
  The environment computes with IEEE 754 double-precision numbers (Python floats and
  numpy float64 values) in the default rounding mode. A value of type \<open>fl\<close> is a double:
  \<open>Fin x\<close> is the finite double of value \<open>x\<close> (\<open>Fin 0\<close> is \<open>+0.0\<close>), \<open>NegZero\<close> is \<open>-0.0\<close>,
  and \<open>PInf\<close>, \<open>MInf\<close> and \<open>NaN\<close> are the two infinities and nan. A decimal literal or a
  parsed number \<open>q\<close> is the double \<open>round64 q\<close>.
\<close>

datatype fl = Fin real | NegZero | PInf | MInf | NaN

text \<open>Powers of two with an integer exponent.\<close>

definition pow2 :: "int \<Rightarrow> real" where
  "pow2 k = (if 0 \<le> k then 2 ^ nat k else 1 / 2 ^ nat (- k))"

text \<open>
  The binary exponent of a nonzero real: \<open>2 ^ expo x \<le> |x| < 2 ^ (expo x + 1)\<close>, computed from
  the bit length of the integer part (or of the reciprocal, below 1).
\<close>

definition expo :: "real \<Rightarrow> int" where
  "expo x = (if 1 \<le> \<bar>x\<bar> then bitlen \<lfloor>\<bar>x\<bar>\<rfloor> - 1 else - bitlen (\<lceil>1 / \<bar>x\<bar>\<rceil> - 1))"

text \<open>Rounding a real to the nearest integer, a tie to the even one.\<close>

definition rne :: "real \<Rightarrow> int" where
  "rne z = (let f = \<lfloor>z\<rfloor>; r = z - of_int f
            in if r < 1 / 2 then f else if 1 / 2 < r then f + 1 else if even f then f else f + 1)"

text \<open>
  Rounding a real to the nearest double: 53 significant bits, the unit in the last
  place being \<open>2 ^ (e - 52)\<close> for the exponent \<open>e\<close>, but never below \<open>2 ^ - 1074\<close> (the
  subnormal range); a result of magnitude \<open>2 ^ 1024\<close> or more overflows to an infinity, and
  a result that rounds to zero keeps the sign.
\<close>

definition round64 :: "real \<Rightarrow> fl" where
  "round64 x =
     (let ulp = pow2 (max (expo x) (- 1022) - 52);
          y = of_int (rne (x / ulp)) * ulp
      in if 2 ^ 1024 \<le> \<bar>y\<bar> then (if x < 0 then MInf else PInf)
         else if y = 0 then (if x < 0 then NegZero else Fin 0)
         else Fin y)"

text \<open>The value, the sign bit and the finiteness of a double.\<close>

fun val :: "fl \<Rightarrow> real" where
  "val (Fin a) = a"
| "val x = 0"

fun negative :: "fl \<Rightarrow> bool" where
  "negative (Fin a) = (a < 0)"
| "negative NegZero = True"
| "negative MInf = True"
| "negative x = False"

fun is_finite :: "fl \<Rightarrow> bool" where
  "is_finite (Fin a) = True"
| "is_finite NegZero = True"
| "is_finite x = False"

definition zero_of :: "bool \<Rightarrow> fl" where
  "zero_of neg = (if neg then NegZero else Fin 0)"

definition inf_of :: "bool \<Rightarrow> fl" where
  "inf_of neg = (if neg then MInf else PInf)"

fun fneg :: "fl \<Rightarrow> fl" where
  "fneg (Fin a) = (if a = 0 then NegZero else Fin (- a))"
| "fneg NegZero = Fin 0"
| "fneg PInf = MInf"
| "fneg MInf = PInf"
| "fneg NaN = NaN"

fun fabs :: "fl \<Rightarrow> fl" where
  "fabs (Fin a) = Fin \<bar>a\<bar>"
| "fabs NegZero = Fin 0"
| "fabs PInf = PInf"
| "fabs MInf = PInf"
| "fabs NaN = NaN"

text \<open>
  The arithmetic operations: nan propagates, the infinities and the zeros follow the
  IEEE rules, and a finite nonzero exact result is rounded. A zero divisor gives an
  infinity (or nan for \<open>0 / 0\<close>), as numpy does on float64 operands: a warning, never an
  exception.
\<close>

definition fadd :: "fl \<Rightarrow> fl \<Rightarrow> fl" where
  "fadd x y =
     (if x = NaN \<or> y = NaN then NaN
      else if \<not> is_finite x then (if \<not> is_finite y \<and> x \<noteq> y then NaN else x)
      else if \<not> is_finite y then y
      else if val x + val y = 0 then zero_of (negative x \<and> negative y)
      else round64 (val x + val y))"

definition fsub :: "fl \<Rightarrow> fl \<Rightarrow> fl" where
  "fsub x y = fadd x (fneg y)"

definition fmul :: "fl \<Rightarrow> fl \<Rightarrow> fl" where
  "fmul x y =
     (if x = NaN \<or> y = NaN then NaN
      else if \<not> is_finite x \<or> \<not> is_finite y then
        (if (is_finite x \<and> val x = 0) \<or> (is_finite y \<and> val y = 0) then NaN
         else inf_of (negative x \<noteq> negative y))
      else if val x * val y = 0 then zero_of (negative x \<noteq> negative y)
      else round64 (val x * val y))"

definition fdiv :: "fl \<Rightarrow> fl \<Rightarrow> fl" where
  "fdiv x y =
     (if x = NaN \<or> y = NaN then NaN
      else if \<not> is_finite x then
        (if \<not> is_finite y then NaN else inf_of (negative x \<noteq> negative y))
      else if \<not> is_finite y then zero_of (negative x \<noteq> negative y)
      else if val y = 0 then
        (if val x = 0 then NaN else inf_of (negative x \<noteq> negative y))
      else if val x = 0 then zero_of (negative x \<noteq> negative y)
      else round64 (val x / val y))"

text \<open>Comparisons: every comparison with nan is false, so \<open>!=\<close> with nan is true; the two zeros are equal.\<close>

definition flt :: "fl \<Rightarrow> fl \<Rightarrow> bool" where
  "flt x y =
     (x \<noteq> NaN \<and> y \<noteq> NaN \<and> x \<noteq> PInf \<and> y \<noteq> MInf
      \<and> (x = MInf \<or> y = PInf \<or> val x < val y))"

definition fgt :: "fl \<Rightarrow> fl \<Rightarrow> bool" where
  "fgt x y = flt y x"

definition feq :: "fl \<Rightarrow> fl \<Rightarrow> bool" where
  "feq x y =
     (x \<noteq> NaN \<and> y \<noteq> NaN
      \<and> (if is_finite x \<and> is_finite y then val x = val y else x = y))"

text \<open>Python's builtin \<open>min(a, b)\<close> returns \<open>a\<close> unless \<open>b < a\<close>.\<close>

definition pymin :: "fl \<Rightarrow> fl \<Rightarrow> fl" where
  "pymin a b = (if flt b a then b else a)"

text \<open>\<open>int(x)\<close> on a finite float: truncation towards zero.\<close>

definition trunc :: "real \<Rightarrow> int" where
  "trunc q = (if 0 \<le> q then \<lfloor>q\<rfloor> else \<lceil>q\<rceil>)"

section \<open>Errors and tables\<close>

text \<open>
  The exceptions a call can end with. \<open>FitError\<close> stands for whatever an external
  collaborator (the forecaster, a risk-adjusted-return formula) raises. The source
  defines no exception of its own and raises none itself: every error below comes from
  an indexing, a conversion or a library call.
\<close>

datatype error = IndexError | KeyError | ValueError | OverflowError | FitError

text \<open>
  A DataFrame, stored column by column under the column names. The cells are numbers;
  the \<open>Date\<close> and \<open>index\<close> columns are never read by the environment.
\<close>

type_synonym table = "(string \<times> fl list) list"

definition column :: "table \<Rightarrow> string \<Rightarrow> error + fl list" where
  "column t name = (case map_of t name of None \<Rightarrow> Inl KeyError | Some v \<Rightarrow> Inr v)"

text \<open>\<open>len(df)\<close>: the number of rows.\<close>

definition nrows :: "table \<Rightarrow> nat" where
  "nrows t = (case t of [] \<Rightarrow> 0 | c # _ \<Rightarrow> length (snd c))"

text \<open>\<open>values[i]\<close> for a non-negative index: out of range raises IndexError.\<close>

definition np_index :: "'a list \<Rightarrow> nat \<Rightarrow> error + 'a" where
  "np_index xs i = (if i < length xs then Inr (xs ! i) else Inl IndexError)"

text \<open>\<open>np.diff\<close>: the differences of consecutive elements.\<close>

fun np_diff :: "fl list \<Rightarrow> fl list" where
  "np_diff (x # y # xs) = fsub y x # np_diff (y # xs)"
| "np_diff xs = []"

section \<open>The environment and its ledger\<close>

text \<open>
  What \<open>__init__\<close> stores. \<open>df\<close> and \<open>stationary_df\<close> are the tables after
  \<open>add_indicators\<close> and \<open>log_and_difference\<close> (helpers outside the modelled files), taken
  as given. \<open>n_forecasts\<close> is a horizon length. The external collaborators are fields
  too: the SARIMAX fit and forecast (given the series, the number of steps and
  \<open>alpha\<close>, it returns the predicted mean and the flattened confidence intervals, or
  raises), the three risk-adjusted-return formulas, and the rounding of a value to half
  precision done by \<open>astype('float16')\<close>.
\<close>

record env =
  initial_balance :: fl
  commission :: fl
  reward_func :: string
  df :: table
  stationary_df :: table
  n_forecasts :: nat
  confidence_interval :: fl
  sarimax_forecast :: "fl list \<Rightarrow> nat \<Rightarrow> fl \<Rightarrow> error + (fl list \<times> fl list)"
  sortino_ratio :: "fl list \<Rightarrow> fl list \<Rightarrow> error + fl"
  sterling_ratio :: "fl list \<Rightarrow> fl list \<Rightarrow> error + fl"
  omega_ratio :: "fl list \<Rightarrow> error + fl"
  float16 :: "fl \<Rightarrow> fl"

datatype trade =
  Trade (trade_step: nat) (trade_amount: fl) (trade_total: fl) (trade_type: string)

text \<open>
  The mutable attributes set by \<open>reset\<close>. \<open>account_history\<close> is the 5 x N array,
  stored as its N columns (balance, btc_bought, cost, btc_sold, sales).
\<close>

type_synonym account_column = "fl \<times> fl \<times> fl \<times> fl \<times> fl"

record state =
  balance :: fl
  btc_held :: fl
  net_worths :: "fl list"
  account_history :: "account_column list"
  trades :: "trade list"
  current_step :: nat

text \<open>The second component of the declared observation shape \<open>(1, N)\<close>.\<close>

definition obs_shape :: "env \<Rightarrow> int" where
  "obs_shape e = 5 + int (length (df e)) - 2 + int (n_forecasts e) * 3"

section \<open>The action executor\<close>

definition current_price :: "env \<Rightarrow> state \<Rightarrow> error + fl" where
  "current_price e s =
     (case column (df e) ''Close'' of
        Inl err \<Rightarrow> Inl err
      | Inr close \<Rightarrow>
          (case np_index close (current_step s + n_forecasts e) of
             Inl err \<Rightarrow> Inl err
           | Inr v \<Rightarrow> Inr (fadd v (round64 (1 / 100)))))"

text \<open>
  \<open>int(action / 4)\<close>: the true division gives the double nearest to the quotient and
  raises OverflowError when that is beyond the doubles, which happens for a Python
  integer of absolute value \<open>2 ^ 1026 - 2 ^ 972\<close> or more (a numpy integer never gets
  there); \<open>int\<close> then truncates towards zero. \<open>action % 4\<close> has the sign of the divisor, as \<open>mod\<close> on \<open>int\<close> has, so
  \<open>1 / (action % 4 + 1)\<close> divides by 1, 2, 3 or 4.
\<close>

definition action_type :: "int \<Rightarrow> error + int" where
  "action_type action =
     (case round64 (real_of_int action / 4) of
        Fin q \<Rightarrow> Inr (trunc q)
      | NegZero \<Rightarrow> Inr 0
      | PInf \<Rightarrow> Inl OverflowError
      | MInf \<Rightarrow> Inl OverflowError
      | NaN \<Rightarrow> Inl ValueError)"

definition amount :: "int \<Rightarrow> fl" where
  "amount action = round64 (1 / real_of_int (action mod 4 + 1))"

text \<open>
  \<open>_take_action\<close>. The price lookup and the decoding of the action are its first two
  statements and the only ones that can raise, so an error leaves the ledger as it was.
\<close>

definition take_action :: "env \<Rightarrow> state \<Rightarrow> int \<Rightarrow> error + state" where
  "take_action e s action =
     (case current_price e s of
        Inl err \<Rightarrow> Inl err
      | Inr cp \<Rightarrow>
          (case action_type action of
             Inl err \<Rightarrow> Inl err
           | Inr atype \<Rightarrow>
               (let (btc_bought, cost, btc_sold, sales, held, bal) =
                      (if atype = 0 then
                         (let price = fmul cp (fadd (Fin 1) (commission e));
                              btc_bought = pymin (fdiv (fmul (balance s) (amount action)) price)
                                                 (fdiv (balance s) price);
                              cost = fmul btc_bought price
                          in (btc_bought, cost, Fin 0, Fin 0,
                              fadd (btc_held s) btc_bought, fsub (balance s) cost))
                       else if atype = 1 then
                         (let price = fmul cp (fsub (Fin 1) (commission e));
                              btc_sold = fmul (btc_held s) (amount action);
                              sales = fmul btc_sold price
                          in (Fin 0, Fin 0, btc_sold, sales,
                              fsub (btc_held s) btc_sold, fadd (balance s) sales))
                       else (Fin 0, Fin 0, Fin 0, Fin 0, btc_held s, balance s));
                    sold = fgt btc_sold (Fin 0)
                in Inr (s\<lparr>balance := bal,
                          btc_held := held,
                          trades :=
                            (if sold \<or> fgt btc_bought (Fin 0) then
                               trades s @
                                 [Trade (current_step s)
                                    (if sold then btc_sold else btc_bought)
                                    (if sold then sales else cost)
                                    (if sold then ''sell'' else ''buy'')]
                             else trades s),
                          net_worths := net_worths s @ [fadd bal (fmul held cp)],
                          account_history :=
                            account_history s @ [(bal, btc_bought, cost, btc_sold, sales)]\<rparr>))))"

section \<open>The observation\<close>

text \<open>
  sklearn's \<open>MinMaxScaler().fit_transform\<close> on a matrix given by its columns (the
  features): it rejects an empty matrix and infinite entries with ValueError, ignores
  nan when it takes the minimum and maximum of a column, and maps a column \<open>x\<close> to
  \<open>x * scale + (0 - min * scale)\<close> with \<open>scale = 1 / (max - min)\<close>, a range equal to
  0 being replaced by 1.
\<close>

fun nanmin :: "fl list \<Rightarrow> fl" where
  "nanmin [] = NaN"
| "nanmin (x # xs) =
     (let m = nanmin xs in if x = NaN then m else if m = NaN then x else if flt m x then m else x)"

fun nanmax :: "fl list \<Rightarrow> fl" where
  "nanmax [] = NaN"
| "nanmax (x # xs) =
     (let m = nanmax xs in if x = NaN then m else if m = NaN then x else if flt x m then m else x)"

definition scale_column :: "fl list \<Rightarrow> fl list" where
  "scale_column col =
     (let data_min = nanmin col;
          data_range = fsub (nanmax col) data_min;
          scale = fdiv (Fin 1) (if feq data_range (Fin 0) then Fin 1 else data_range);
          min_off = fsub (Fin 0) (fmul data_min scale)
      in map (\<lambda>x. fadd (fmul x scale) min_off) col)"

definition fit_transform :: "fl list list \<Rightarrow> error + fl list list" where
  "fit_transform cols =
     (if cols = [] \<or> [] \<in> set cols \<or> PInf \<in> set (concat cols) \<or> MInf \<in> set (concat cols)
      then Inl ValueError
      else Inr (map scale_column cols))"

text \<open>
  \<open>stationary_df.columns.difference(['index', 'Date'])\<close>: the remaining column names,
  sorted, with their columns.
\<close>

definition feature_columns :: "table \<Rightarrow> table" where
  "feature_columns t =
     sort_key fst (filter (\<lambda>c. fst c \<notin> {''index'', ''Date''}) t)"

definition column_list :: "account_column \<Rightarrow> fl list" where
  "column_list c = (case c of (b, bought, cost, sold, sales) \<Rightarrow> [b, bought, cost, sold, sales])"

text \<open>
  \<open>_next_observation\<close>: the last row of the scaled feature window, the forecast, its
  confidence bounds and the last column of the scaled account history, cast to half
  precision and reshaped to the declared shape. \<open>np.reshape\<close> raises ValueError when the
  number of entries differs from the declared one (the declared size is at least 3, so
  it is never the wildcard \<open>-1\<close>).
\<close>

definition next_observation :: "env \<Rightarrow> state \<Rightarrow> error + fl list" where
  "next_observation e s =
     (let k = current_step s + n_forecasts e + 1;
          features = feature_columns (stationary_df e);
          window = map (\<lambda>c. map (\<lambda>x. if feq (fabs x) PInf then Fin 0 else x) (take k (snd c)))
                     features
      in case fit_transform window of
           Inl err \<Rightarrow> Inl err
         | Inr scaled \<Rightarrow>
             (case column (stationary_df e) ''Close'' of
                Inl err \<Rightarrow> Inl err
              | Inr close \<Rightarrow>
                  (case sarimax_forecast e (take k close) (n_forecasts e)
                          (fsub (Fin 1) (confidence_interval e)) of
                     Inl err \<Rightarrow> Inl err
                   | Inr (predicted_mean, conf_int) \<Rightarrow>
                       (case fit_transform (map column_list (account_history s)) of
                          Inl err \<Rightarrow> Inl err
                        | Inr scaled_history \<Rightarrow>
                            (let obs = map last scaled @ predicted_mean @ conf_int
                                         @ last scaled_history
                             in if int (length obs) = obs_shape e
                                then Inr (map (float16 e) obs)
                                else Inl ValueError)))))"

section \<open>Reward and termination\<close>

text \<open>
  \<open>_reward\<close>: the configured formula is called first (and may raise), then its value is
  overwritten by the last net-worth difference; \<open>net_worths[-2]\<close> raises IndexError on
  fewer than two entries.
\<close>

definition reward :: "env \<Rightarrow> state \<Rightarrow> error + fl" where
  "reward e s =
     (case column (df e) ''Close'' of
        Inl err \<Rightarrow> Inl err
      | Inr close \<Rightarrow>
          (let returns = np_diff (net_worths s);
               benchmark = np_diff (take (current_step s + 1) (drop (n_forecasts e) close));
               selected =
                 (if reward_func e = ''sortino'' then Some (sortino_ratio e returns benchmark)
                  else if reward_func e = ''sterling'' then Some (sterling_ratio e returns benchmark)
                  else if reward_func e = ''omega'' then Some (omega_ratio e returns)
                  else None)
           in case selected of
                Some (Inl err) \<Rightarrow> Inl err
              | _ \<Rightarrow>
                  (case rev (net_worths s) of
                     a # b # _ \<Rightarrow>
                       (let r = fsub a b in Inr (if \<not> feq (fabs r) PInf then r else Fin 0))
                   | _ \<Rightarrow> Inl IndexError)))"

definition done_fn :: "env \<Rightarrow> state \<Rightarrow> error + bool" where
  "done_fn e s =
     (if net_worths s = [] then Inl IndexError
      else Inr (flt (last (net_worths s)) (fdiv (initial_balance e) (Fin 10))
                \<or> int (current_step s) = int (nrows (df e)) - int (n_forecasts e) - 1))"

section \<open>The episode controller\<close>

text \<open>
  \<open>reset\<close> assigns every attribute of the ledger and then builds the observation: the
  new state stands whether or not the observation could be built.
\<close>

definition reset_state :: "env \<Rightarrow> state \<Rightarrow> state" where
  "reset_state e s =
     s\<lparr>balance := initial_balance e,
       net_worths := [initial_balance e],
       btc_held := Fin 0,
       current_step := 0,
       account_history := [(initial_balance e, Fin 0, Fin 0, Fin 0, Fin 0)],
       trades := []\<rparr>"

definition reset :: "env \<Rightarrow> state \<Rightarrow> state \<times> (error + fl list)" where
  "reset e s = (let s' = reset_state e s in (s', next_observation e s'))"

text \<open>
  \<open>step\<close> returns the state the environment is left in together with the result: an
  exception raised after \<open>_take_action\<close> leaves the ledger updated and the step counter
  advanced.
\<close>

definition step :: "env \<Rightarrow> state \<Rightarrow> int \<Rightarrow> state \<times> (error + (fl list \<times> fl \<times> bool))" where
  "step e s action =
     (case take_action e s action of
        Inl err \<Rightarrow> (s, Inl err)
      | Inr s1 \<Rightarrow>
          (let s2 = s1\<lparr>current_step := current_step s1 + 1\<rparr>
           in case next_observation e s2 of
                Inl err \<Rightarrow> (s2, Inl err)
              | Inr obs \<Rightarrow>
                  (case reward e s2 of
                     Inl err \<Rightarrow> (s2, Inl err)
                   | Inr r \<Rightarrow>
                       (case done_fn e s2 of
                          Inl err \<Rightarrow> (s2, Inl err)
                        | Inr d \<Rightarrow> (s2, Inr (obs, r, d))))))"

section \<open>A small market for the examples\<close>

text \<open>
  Four daily bars whose close prices 99.99, 199.99 and 99.99 give the current prices
  100, 200 and 100 at steps 0, 1 and 2 (one bar of forecast horizon, the \<open>+ 0.01\<close>
  offset included), no commission, and stand-ins for the collaborators: a forecaster
  that predicts zeros, three formulas with recognisable values, and a half-precision
  cast that changes nothing.
\<close>

definition example_forecast :: "fl list \<Rightarrow> nat \<Rightarrow> fl \<Rightarrow> error + (fl list \<times> fl list)" where
  "example_forecast series n alpha = Inr (replicate n (Fin 0), replicate (2 * n) (Fin 0))"

definition example_env :: env where
  "example_env =
     \<lparr>initial_balance = Fin 10000,
      commission = Fin 0,
      reward_func = ''sortino'',
      df = [(''index'', [Fin 0, Fin 1, Fin 2, Fin 3]),
            (''Date'', [Fin 0, Fin 1, Fin 2, Fin 3]),
            (''Close'', [Fin 50, round64 (9999 / 100), round64 (19999 / 100),
                         round64 (9999 / 100)])],
      stationary_df =
           [(''index'', [Fin 0, Fin 1, Fin 2, Fin 3]),
            (''Date'', [Fin 0, Fin 1, Fin 2, Fin 3]),
            (''Close'', [Fin 0, Fin 1, Fin 2, Fin 1])],
      n_forecasts = 1,
      confidence_interval = round64 (95 / 100),
      sarimax_forecast = example_forecast,
      sortino_ratio = (\<lambda>returns benchmark. Inr (Fin 7)),
      sterling_ratio = (\<lambda>returns benchmark. Inr (Fin 8)),
      omega_ratio = (\<lambda>returns. Inr (Fin 9)),
      float16 = (\<lambda>x. x)\<rparr>"

text \<open>The ledger right after \<open>reset\<close>, after buying with the whole balance at step 0, and
  after then holding at step 1, when the price has doubled.\<close>

definition start_state :: state where
  "start_state =
     \<lparr>balance = Fin 10000, btc_held = Fin 0, net_worths = [Fin 10000],
      account_history = [(Fin 10000, Fin 0, Fin 0, Fin 0, Fin 0)],
      trades = [], current_step = 0\<rparr>"

definition bought_state :: state where
  "bought_state =
     \<lparr>balance = Fin 0, btc_held = Fin 100, net_worths = [Fin 10000, Fin 10000],
      account_history = [(Fin 10000, Fin 0, Fin 0, Fin 0, Fin 0),
                         (Fin 0, Fin 100, Fin 10000, Fin 0, Fin 0)],
      trades = [Trade 0 (Fin 100) (Fin 10000) ''buy''], current_step = 1\<rparr>"

definition held_state :: state where
  "held_state =
     \<lparr>balance = Fin 0, btc_held = Fin 100, net_worths = [Fin 10000, Fin 10000, Fin 20000],
      account_history = [(Fin 10000, Fin 0, Fin 0, Fin 0, Fin 0),
                         (Fin 0, Fin 100, Fin 10000, Fin 0, Fin 0),
                         (Fin 0, Fin 0, Fin 0, Fin 0, Fin 0)],
      trades = [Trade 0 (Fin 100) (Fin 10000) ''buy''], current_step = 2\<rparr>"

text \<open>
  The same market with the default commission of 0.0003 and the close price 71.46 in
  the second bar, which gives the current price 71.47 at step 0.
\<close>

definition fee_env :: env where
  "fee_env =
     example_env\<lparr>commission := round64 (3 / 10000),
                  df := [(''index'', [Fin 0, Fin 1, Fin 2, Fin 3]),
                         (''Date'', [Fin 0, Fin 1, Fin 2, Fin 3]),
                         (''Close'', [Fin 50, round64 (7146 / 100), round64 (19999 / 100),
                                      round64 (9999 / 100)])]\<rparr>"

text \<open>The same market with the prices missing from the second bar on.\<close>

definition gap_env :: env where
  "gap_env =
     example_env\<lparr>df := [(''index'', [Fin 0, Fin 1, Fin 2, Fin 3]),
                         (''Date'', [Fin 0, Fin 1, Fin 2, Fin 3]),
                         (''Close'', [Fin 50, NaN, NaN, NaN])],
                  stationary_df :=
                        [(''index'', [Fin 0, Fin 1, Fin 2, Fin 3]),
                         (''Date'', [Fin 0, Fin 1, Fin 2, Fin 3]),
                         (''Close'', [Fin 0, NaN, NaN, NaN])]\<rparr>"

text \<open>The same market with an infinite close price, raw and as a feature, in the third bar.\<close>

definition spike_env :: env where
  "spike_env =
     example_env\<lparr>df := [(''index'', [Fin 0, Fin 1, Fin 2, Fin 3]),
                         (''Date'', [Fin 0, Fin 1, Fin 2, Fin 3]),
                         (''Close'', [Fin 50, round64 (9999 / 100), PInf,
                                      round64 (9999 / 100)])],
                  stationary_df :=
                        [(''index'', [Fin 0, Fin 1, Fin 2, Fin 3]),
                         (''Date'', [Fin 0, Fin 1, Fin 2, Fin 3]),
                         (''Close'', [Fin 0, Fin 1, PInf, Fin 1])]\<rparr>"

section \<open>Rounding\<close>

lemma pow2_powr: "pow2 k = 2 powr (real_of_int k)"
  by (cases "0 \<le> k") (simp_all add: pow2_def powr_realpow [symmetric] powr_minus divide_inverse)

lemma pow2_pos [simp]: "0 < pow2 k"
  by (simp add: pow2_powr)

lemma pow2_add: "pow2 (j + k) = pow2 j * pow2 k"
  by (simp add: pow2_powr powr_add)

lemma pow2_mono: "j \<le> k \<Longrightarrow> pow2 j \<le> pow2 k"
  by (simp add: pow2_powr)

lemma pow2_nat: "pow2 (int n) = 2 ^ n"
  by (simp add: pow2_def)

lemma expo_bounds:
  assumes "x \<noteq> 0"
  shows "pow2 (expo x) \<le> \<bar>x\<bar>" and "\<bar>x\<bar> < pow2 (expo x + 1)"
proof -
  have "pow2 (expo x) \<le> \<bar>x\<bar> \<and> \<bar>x\<bar> < pow2 (expo x + 1)"
  proof (cases "1 \<le> \<bar>x\<bar>")
    case True
    define n where "n = \<lfloor>\<bar>x\<bar>\<rfloor>"
    from True have n: "0 < n" by (simp add: n_def)
    then have b: "1 \<le> bitlen n" by (simp add: bitlen_alt_def)
    have e: "expo x = bitlen n - 1" using True by (simp add: expo_def n_def)
    from bitlen_bounds [OF n] have lo: "2 ^ nat (bitlen n - 1) \<le> n" and hi: "n < 2 ^ nat (bitlen n)"
      by simp_all
    have "pow2 (expo x) = 2 ^ nat (bitlen n - 1)" using b by (simp add: e pow2_def)
    also have "\<dots> \<le> real_of_int n" using lo by (metis of_int_le_iff of_int_numeral of_int_power)
    also have "\<dots> \<le> \<bar>x\<bar>" by (simp add: n_def)
    finally have 1: "pow2 (expo x) \<le> \<bar>x\<bar>" .
    from hi have "n + 1 \<le> 2 ^ nat (bitlen n)" by simp
    then have "real_of_int (n + 1) \<le> 2 ^ nat (bitlen n)"
      by (metis of_int_le_iff of_int_numeral of_int_power)
    moreover have "\<bar>x\<bar> < real_of_int (n + 1)" by (simp add: n_def)
    moreover have "pow2 (expo x + 1) = 2 ^ nat (bitlen n)" using b by (simp add: e pow2_def)
    ultimately have "\<bar>x\<bar> < pow2 (expo x + 1)" by simp
    with 1 show ?thesis by simp
  next
    case False
    define y where "y = 1 / \<bar>x\<bar>"
    from False assms have y: "1 < y" by (simp add: y_def)
    define n where "n = \<lceil>y\<rceil> - 1"
    from y have n: "0 < n" unfolding n_def by linarith
    then have b: "1 \<le> bitlen n" by (simp add: bitlen_alt_def)
    have e: "expo x = - bitlen n" using False by (simp add: expo_def n_def y_def)
    from bitlen_bounds [OF n] have lo: "2 ^ nat (bitlen n - 1) \<le> n" and hi: "n < 2 ^ nat (bitlen n)"
      by simp_all
    have "real_of_int n < y" unfolding n_def by linarith
    moreover have "(2::real) ^ nat (bitlen n - 1) \<le> real_of_int n"
      using lo by (metis of_int_le_iff of_int_numeral of_int_power)
    ultimately have ylo: "2 ^ nat (bitlen n - 1) < y" by linarith
    from hi have "n + 1 \<le> 2 ^ nat (bitlen n)" by simp
    then have "real_of_int (n + 1) \<le> 2 ^ nat (bitlen n)"
      by (metis of_int_le_iff of_int_numeral of_int_power)
    moreover have "y \<le> real_of_int (n + 1)" unfolding n_def by simp
    ultimately have yhi: "y \<le> 2 ^ nat (bitlen n)" by simp
    have xy: "\<bar>x\<bar> = 1 / y" using assms by (simp add: y_def)
    have "pow2 (expo x) = 1 / 2 ^ nat (bitlen n)" using b by (simp add: e pow2_def)
    also have "\<dots> \<le> 1 / y" using yhi y by (simp add: frac_le)
    finally have 1: "pow2 (expo x) \<le> \<bar>x\<bar>" by (simp add: xy)
    have "pow2 (expo x + 1) = 1 / 2 ^ nat (bitlen n - 1)"
    proof (cases "bitlen n = 1")
      case True then show ?thesis by (simp add: e pow2_def)
    next
      case False
      with b have "- bitlen n + 1 < 0" by simp
      moreover have "nat (bitlen n - 1) = nat (- (- bitlen n + 1))" by simp
      ultimately show ?thesis unfolding e pow2_def by simp
    qed
    moreover have "1 / y < 1 / 2 ^ nat (bitlen n - 1)"
      using ylo by (simp add: frac_less2)
    ultimately have "\<bar>x\<bar> < pow2 (expo x + 1)" by (simp add: xy)
    with 1 show ?thesis by simp
  qed
  then show "pow2 (expo x) \<le> \<bar>x\<bar>" and "\<bar>x\<bar> < pow2 (expo x + 1)" by simp_all
qed

lemma expo_eqI:
  assumes "pow2 e \<le> \<bar>x\<bar>" and "\<bar>x\<bar> < pow2 (e + 1)"
  shows "expo x = e"
proof -
  have "0 < pow2 e" by simp
  with assms(1) have "0 < \<bar>x\<bar>" by linarith
  then have nz: "x \<noteq> 0" by simp
  note b = expo_bounds [OF nz]
  have "pow2 e < pow2 (expo x + 1)" using assms(1) b(2) by simp
  then have "e < expo x + 1" by (simp add: pow2_powr)
  moreover have "pow2 (expo x) < pow2 (e + 1)" using assms(2) b(1) by simp
  then have "expo x < e + 1" by (simp add: pow2_powr)
  ultimately show ?thesis by simp
qed

lemma rne_eqI:
  assumes "\<bar>z - of_int m\<bar> < 1 / 2"
  shows "rne z = m"
proof -
  consider "\<lfloor>z\<rfloor> = m" "z - of_int m < 1 / 2" | "\<lfloor>z\<rfloor> = m - 1" "1 / 2 < z - of_int (m - 1)"
  proof -
    have "of_int m - 1 / 2 < z" "z < of_int m + 1 / 2" using assms by linarith+
    then show ?thesis using that by (cases "of_int m \<le> z") (simp_all add: floor_unique)
  qed
  then show ?thesis
    by cases (simp_all add: rne_def Let_def)
qed

lemma rne_floor_le: "\<lfloor>z\<rfloor> \<le> rne z"
  by (simp add: rne_def Let_def)

lemma rne_le_ceiling: "rne z \<le> \<lceil>z\<rceil>"
proof -
  have "\<lfloor>z\<rfloor> + 1 \<le> \<lceil>z\<rceil>" if "z \<noteq> of_int \<lfloor>z\<rfloor>"
    using that by (metis ceiling_altdef order_refl)
  moreover have "\<lfloor>z\<rfloor> \<le> \<lceil>z\<rceil>" by (simp add: floor_le_ceiling)
  ultimately show ?thesis by (auto simp: rne_def Let_def)
qed

lemma rne_le:
  assumes "z < of_int m + 1 / 2"
  shows "rne z \<le> m"
proof -
  have "\<lfloor>z\<rfloor> \<le> m" using assms by (simp add: floor_le_iff)
  moreover have "z - of_int \<lfloor>z\<rfloor> < 1 / 2" if "\<lfloor>z\<rfloor> = m" using assms that by simp
  ultimately show ?thesis by (cases "\<lfloor>z\<rfloor> = m") (auto simp: rne_def Let_def)
qed

lemma rne_ge_even:
  assumes "of_int m - 1 / 2 \<le> z" and "even m"
  shows "m \<le> rne z"
proof (cases "m \<le> \<lfloor>z\<rfloor>")
  case True
  with rne_floor_le [of z] show ?thesis by simp
next
  case False
  have "m - 1 \<le> \<lfloor>z\<rfloor>" using assms(1) by (simp add: le_floor_iff)
  with False have f: "\<lfloor>z\<rfloor> = m - 1" by simp
  then have "1 / 2 \<le> z - of_int \<lfloor>z\<rfloor>" using assms(1) by simp
  moreover have "odd \<lfloor>z\<rfloor>" using f assms(2) by simp
  ultimately show ?thesis using f by (auto simp: rne_def Let_def)
qed

lemma rne_minus: "rne (- z) = - rne z"
proof (cases "z = of_int \<lfloor>z\<rfloor>")
  case True
  then obtain n where "z = of_int n" ..
  then show ?thesis by (simp add: rne_def Let_def flip: of_int_minus)
next
  case False
  then have fl: "\<lfloor>- z\<rfloor> = - \<lfloor>z\<rfloor> - 1"
    by (metis ceiling_altdef ceiling_def diff_minus_eq_add minus_diff_eq minus_minus uminus_add_conv_diff add.commute)
  define f where "f = \<lfloor>z\<rfloor>"
  define r where "r = z - of_int f"
  have r: "0 < r" "r < 1" using False unfolding r_def f_def by linarith+
  have z: "z = of_int f + r" by (simp add: r_def)
  have "- z - of_int (- f - 1) = 1 - r" by (simp add: z)
  then show ?thesis
    unfolding rne_def Let_def fl f_def [symmetric] r_def [symmetric]
    using r by (auto simp: not_less)
qed

lemma pow2_52: "pow2 52 = 2 ^ 52" and pow2_53: "pow2 53 = 2 ^ 53" and pow2_1024: "pow2 1024 = 2 ^ 1024"
  by (simp_all add: pow2_def)

lemma pow2_abs [simp]: "\<bar>pow2 k\<bar> = pow2 k"
  by (simp add: abs_of_pos)

lemma pow2_nonneg [simp]: "0 \<le> pow2 k"
  by (rule less_imp_le) simp

lemma pow2_nz [simp]: "pow2 k \<noteq> 0"
  using pow2_pos [of k] by (simp del: pow2_pos)

lemma round64_eqI:
  assumes y: "y = of_int m * pow2 k"
    and m: "2 ^ 52 \<le> \<bar>m\<bar>" "\<bar>m\<bar> < 2 ^ 53"
    and k: "- 1074 \<le> k" "k \<le> 971"
    and x: "pow2 (k + 52) \<le> \<bar>x\<bar>" "\<bar>x - y\<bar> * 2 < pow2 k"
  shows "round64 x = Fin y"
proof -
  have am: "\<bar>y\<bar> = of_int \<bar>m\<bar> * pow2 k" by (simp add: y abs_mult)
  from m(2) have "\<bar>m\<bar> + 1 \<le> 2 ^ 53" by simp
  then have "real_of_int (\<bar>m\<bar> + 1) \<le> 2 ^ 53"
    by (metis of_int_le_iff of_int_numeral of_int_power)
  then have "real_of_int \<bar>m\<bar> \<le> 2 ^ 53 - 1" by simp
  then have "\<bar>y\<bar> \<le> (2 ^ 53 - 1) * pow2 k"
    unfolding am by (intro mult_right_mono) simp_all
  then have ylt: "\<bar>y\<bar> \<le> pow2 (k + 53) - pow2 k"
    by (simp add: pow2_add pow2_53 algebra_simps)
  define ax ay d where "ax = \<bar>x\<bar>" and "ay = \<bar>y\<bar>" and "d = \<bar>x - y\<bar>"
  have "ax \<le> ay + d" by (simp add: ax_def ay_def d_def)
  moreover have "ay \<le> pow2 (k + 53) - pow2 k" using ylt by (simp add: ay_def)
  moreover have "d * 2 < pow2 k" using x(2) by (simp add: d_def)
  moreover have "0 < pow2 k" by simp
  ultimately have "ax < pow2 (k + 53)" by linarith
  then have "\<bar>x\<bar> < pow2 (k + 53)" by (simp add: ax_def)
  then have "\<bar>x\<bar> < pow2 (k + 52 + 1)" by (simp add: add.commute add.left_commute)
  with x(1) have e: "expo x = k + 52" by (rule expo_eqI)
  have "max (k + 52) (- 1022) - 52 = k" using k(1) by linarith
  then have ulp: "pow2 (max (expo x) (- 1022) - 52) = pow2 k" by (simp only: e)
  have "x / pow2 k - of_int m = (x - y) / pow2 k" by (simp add: y diff_divide_distrib)
  then have "\<bar>x / pow2 k - of_int m\<bar> = \<bar>x - y\<bar> / pow2 k" by (simp add: abs_divide)
  also have "\<dots> < 1 / 2" using x(2) by (simp add: field_simps)
  finally have r: "rne (x / pow2 k) = m" by (rule rne_eqI)
  from m(1) have "m \<noteq> 0" by auto
  then have ynz: "y \<noteq> 0" by (simp add: y)
  have "pow2 (k + 53) \<le> pow2 1024" using k(2) by (intro pow2_mono) simp
  moreover have "0 < pow2 k" by simp
  ultimately have "\<bar>y\<bar> < pow2 1024" using ylt by linarith
  then have ysmall: "\<not> 2 ^ 1024 \<le> \<bar>y\<bar>" by (simp only: pow2_1024 not_le)
  show ?thesis
    unfolding round64_def Let_def ulp r y [symmetric] using ysmall ynz by simp
qed

lemma expo_minus [simp]: "expo (- x) = expo x"
  by (simp add: expo_def)

lemma round64_minus_Fin:
  assumes "round64 x = Fin y" and "y \<noteq> 0"
  shows "round64 (- x) = Fin (- y)"
proof -
  define ulp where "ulp = pow2 (max (expo x) (- 1022) - 52)"
  define v where "v = of_int (rne (x / ulp)) * ulp"
  from assms have v: "\<not> 2 ^ 1024 \<le> \<bar>v\<bar>" "v \<noteq> 0" "y = v"
    unfolding round64_def Let_def ulp_def [symmetric] v_def [symmetric]
    by (auto split: if_splits)
  have "of_int (rne (- x / ulp)) * ulp = - v" by (simp add: v_def rne_minus)
  with v show ?thesis
    unfolding round64_def [of "- x"] Let_def expo_minus ulp_def [symmetric] by simp
qed

lemma round64_minus_PInf:
  assumes "round64 x = PInf"
  shows "round64 (- x) = MInf"
proof -
  define ulp where "ulp = pow2 (max (expo x) (- 1022) - 52)"
  define v where "v = of_int (rne (x / ulp)) * ulp"
  from assms have v: "2 ^ 1024 \<le> \<bar>v\<bar>" "\<not> x < 0"
    unfolding round64_def Let_def ulp_def [symmetric] v_def [symmetric]
    by (auto split: if_splits)
  have ulp: "0 < ulp" by (simp add: ulp_def)
  have "x \<noteq> 0"
  proof
    assume "x = 0"
    then have "v = 0" by (simp add: v_def rne_def)
    with v(1) show False by simp
  qed
  with v(2) have "0 < x" by simp
  moreover have "of_int (rne (- x / ulp)) * ulp = - v" by (simp add: v_def rne_minus)
  ultimately show ?thesis
    unfolding round64_def [of "- x"] Let_def expo_minus ulp_def [symmetric] using v(1) by simp
qed

lemma round64_normal:
  assumes "0 < x" and e: "expo x = e" and "- 1022 \<le> e"
    and m: "m = rne (x / pow2 (e - 52))"
  shows "2 ^ 52 \<le> m" and "m \<le> 2 ^ 53"
    and "round64 x = (if 2 ^ 1024 \<le> of_int m * pow2 (e - 52) then PInf
                      else Fin (of_int m * pow2 (e - 52)))"
proof -
  from assms(1) have nz: "x \<noteq> 0" by simp
  from expo_bounds [OF nz] assms(1) have b: "pow2 e \<le> x" "x < pow2 (e + 1)" by (simp_all add: e)
  define z where "z = x / pow2 (e - 52)"
  have "pow2 e = 2 ^ 52 * pow2 (e - 52)" using pow2_add [of 52 "e - 52"] by (simp add: pow2_52)
  with b(1) have "2 ^ 52 \<le> z" by (simp add: z_def pos_le_divide_eq)
  then have "(2::int) ^ 52 \<le> \<lfloor>z\<rfloor>" by (simp add: le_floor_iff)
  then have "2 ^ 52 \<le> rne z" by (rule order_trans [OF _ rne_floor_le])
  then show lo: "2 ^ 52 \<le> m" unfolding m z_def .
  have "pow2 (e + 1) = 2 ^ 53 * pow2 (e - 52)" using pow2_add [of 53 "e - 52"] by (simp add: pow2_53 add.commute)
  with b(2) have "z < 2 ^ 53" by (simp add: z_def pos_divide_less_eq)
  then have "\<lceil>z\<rceil> \<le> (2::int) ^ 53" by (simp add: ceiling_le_iff)
  then have "rne z \<le> 2 ^ 53" by (rule order_trans [OF rne_le_ceiling])
  then show "m \<le> 2 ^ 53" unfolding m z_def .
  have "max e (- 1022) = e" using assms(3) by linarith
  then have ulp: "pow2 (max (expo x) (- 1022) - 52) = pow2 (e - 52)" by (simp only: e)
  from lo have "0 < real_of_int m" by simp
  then have pos: "0 < of_int m * pow2 (e - 52)" by simp
  show "round64 x = (if 2 ^ 1024 \<le> of_int m * pow2 (e - 52) then PInf
                      else Fin (of_int m * pow2 (e - 52)))"
    unfolding round64_def Let_def ulp m [symmetric] using pos assms(1) by (simp add: abs_of_pos)
qed

lemma pow2_less_iff: "pow2 j < pow2 k \<longleftrightarrow> j < k"
  by (simp add: pow2_powr)

lemma pow2_1: "pow2 1 = 2" and pow2_m1: "pow2 (- 1) = 1 / 2"
  by (simp_all add: pow2_def)

lemma pow2_split: "pow2 (e + 1) = 2 ^ 53 * pow2 (e - 52)" "pow2 e = 2 ^ 52 * pow2 (e - 52)"
  using pow2_add [of 53 "e - 52"] pow2_add [of 52 "e - 52"]
  by (simp_all add: pow2_52 pow2_53 add.commute)

lemma pow2_top:
  shows "pow2 1024 = 2 ^ 53 * pow2 971" and "pow2 970 = pow2 971 / 2"
    and "pow2 1024 = 2 * pow2 1023" and "pow2 970 < pow2 1023"
proof -
  show "pow2 1024 = 2 ^ 53 * pow2 971" using pow2_add [of 53 971] by (simp add: pow2_53)
  show "pow2 970 = pow2 971 / 2" using pow2_add [of "- 1" 971] by (simp add: pow2_m1)
  show "pow2 1024 = 2 * pow2 1023" using pow2_add [of 1 1023] by (simp add: pow2_1)
  show "pow2 970 < pow2 1023" by (simp add: pow2_less_iff)
qed

lemma scale_le:
  fixes a b c :: real
  assumes "a \<le> b" and "0 \<le> c"
  shows "a * c \<le> b * c"
  using assms by (rule mult_right_mono)

lemma round64_ge2:
  assumes "2 \<le> x" and "x < pow2 1024 - pow2 970"
  shows "\<exists>y. round64 x = Fin y \<and> 2 \<le> y"
proof -
  define e where "e = expo x"
  define m where "m = rne (x / pow2 (e - 52))"
  define u where "u = pow2 (e - 52)"
  from assms(1) have pos: "0 < x" and nz: "x \<noteq> 0" by simp_all
  from expo_bounds [OF nz] pos have b: "pow2 e \<le> x" "x < pow2 (e + 1)" by (simp_all add: e_def)
  from assms(1) b(2) have "pow2 1 < pow2 (e + 1)" by (simp add: pow2_1)
  then have e1: "1 \<le> e" by (simp add: pow2_less_iff)
  have "0 < pow2 970" by simp
  with assms(2) b(1) have "pow2 e < pow2 1024" by linarith
  then have e2: "e \<le> 1023" by (simp add: pow2_less_iff)
  from e1 have "- 1022 \<le> e" by simp
  note n = round64_normal [OF pos e_def [symmetric] this m_def]
  define y where "y = of_int m * u"
  have u0: "0 \<le> u" by (simp add: u_def)
  from n(1) have "real_of_int (2 ^ 52) \<le> real_of_int m" by (simp only: of_int_le_iff)
  then have m1: "2 ^ 52 \<le> real_of_int m" by simp
  from n(2) have "real_of_int m \<le> real_of_int (2 ^ 53)" by (simp only: of_int_le_iff)
  then have m2: "real_of_int m \<le> 2 ^ 53" by simp
  have "2 ^ 52 * u \<le> y" unfolding y_def using m1 u0 by (rule scale_le)
  then have "pow2 e \<le> y" by (simp only: pow2_split(2) [of e] u_def)
  moreover have "pow2 1 \<le> pow2 e" using e1 by (rule pow2_mono)
  ultimately have y2: "2 \<le> y" unfolding pow2_1 by linarith
  have small: "y < pow2 1024"
  proof (cases "e = 1023")
    case True
    then have u: "u = pow2 971" by (simp add: u_def)
    define q where "q = pow2 971"
    have q: "0 < q" by (simp add: q_def)
    have t: "pow2 1024 = 2 ^ 53 * q" "pow2 970 = q / 2" by (simp_all only: pow2_top q_def)
    from assms(2) have "x < (2 ^ 53 - 1 / 2) * q" by (simp only: t) (simp add: algebra_simps)
    then have "x / q < 2 ^ 53 - 1 / 2" using q by (simp add: pos_divide_less_eq)
    then have "x / pow2 (e - 52) < of_int (2 ^ 53 - 1) + 1 / 2" by (simp add: True q_def)
    then have "m \<le> 2 ^ 53 - 1" unfolding m_def by (rule rne_le)
    then have "real_of_int m \<le> real_of_int (2 ^ 53 - 1)" by (simp only: of_int_le_iff)
    then have "real_of_int m \<le> 2 ^ 53 - 1" by simp
    then have "real_of_int m * q \<le> (2 ^ 53 - 1) * q" using q by (intro scale_le) simp_all
    also have "\<dots> < 2 ^ 53 * q" using q by simp
    finally show ?thesis by (simp only: y_def u t q_def [symmetric])
  next
    case False
    with e2 have "e + 1 \<le> 1023" by simp
    then have "pow2 (e + 1) \<le> pow2 1023" by (rule pow2_mono)
    moreover have "pow2 1023 < pow2 1024" by (simp add: pow2_less_iff)
    moreover have "y \<le> 2 ^ 53 * u" unfolding y_def using m2 u0 by (rule scale_le)
    then have "y \<le> pow2 (e + 1)" by (simp only: pow2_split(1) [of e] u_def)
    ultimately show ?thesis by linarith
  qed
  then have "\<not> 2 ^ 1024 \<le> y" by (simp only: pow2_1024 not_le)
  with n(3) have "round64 x = Fin y" by (simp only: y_def u_def if_False)
  with y2 show ?thesis by blast
qed

lemma round64_overflow:
  assumes "pow2 1024 - pow2 970 \<le> x"
  shows "round64 x = PInf"
proof -
  define e where "e = expo x"
  define m where "m = rne (x / pow2 (e - 52))"
  define u where "u = pow2 (e - 52)"
  from pow2_top(3,4) assms have x1023: "pow2 1023 \<le> x" by linarith
  have "0 < pow2 1023" by simp
  with x1023 have pos: "0 < x" by linarith
  then have nz: "x \<noteq> 0" by simp
  from expo_bounds [OF nz] pos have b: "pow2 e \<le> x" "x < pow2 (e + 1)" by (simp_all add: e_def)
  from x1023 b(2) have "pow2 1023 < pow2 (e + 1)" by linarith
  then have e1: "1023 \<le> e" by (simp add: pow2_less_iff)
  then have "- 1022 \<le> e" by simp
  note n = round64_normal [OF pos e_def [symmetric] this m_def]
  define y where "y = of_int m * u"
  have u0: "0 \<le> u" by (simp add: u_def)
  have "pow2 1024 \<le> y"
  proof (cases "e = 1023")
    case True
    then have u: "u = pow2 971" by (simp add: u_def)
    define q where "q = pow2 971"
    have q: "0 < q" by (simp add: q_def)
    have t: "pow2 1024 = 2 ^ 53 * q" "pow2 970 = q / 2" by (simp_all only: pow2_top q_def)
    from assms have "(2 ^ 53 - 1 / 2) * q \<le> x" by (simp only: t) (simp add: algebra_simps)
    then have "2 ^ 53 - 1 / 2 \<le> x / q" using q by (simp add: pos_le_divide_eq)
    then have "of_int (2 ^ 53) - 1 / 2 \<le> x / pow2 (e - 52)" by (simp add: True q_def)
    then have "2 ^ 53 \<le> m" unfolding m_def by (rule rne_ge_even) simp
    then have "real_of_int (2 ^ 53) \<le> real_of_int m" by (simp only: of_int_le_iff)
    then have "2 ^ 53 \<le> real_of_int m" by simp
    then have "2 ^ 53 * q \<le> real_of_int m * q" using q by (intro scale_le) simp_all
    then show ?thesis by (simp only: y_def u t q_def [symmetric])
  next
    case False
    with e1 have "1024 \<le> e" by simp
    then have "pow2 1024 \<le> pow2 e" by (rule pow2_mono)
    moreover from n(1) have "real_of_int (2 ^ 52) \<le> real_of_int m" by (simp only: of_int_le_iff)
    then have "2 ^ 52 \<le> real_of_int m" by simp
    then have "2 ^ 52 * u \<le> y" unfolding y_def using u0 by (rule scale_le)
    then have "pow2 e \<le> y" by (simp only: pow2_split(2) [of e] u_def)
    ultimately show ?thesis by linarith
  qed
  then have "2 ^ 1024 \<le> y" by (simp only: pow2_1024)
  with n(3) show ?thesis by (simp only: y_def u_def if_True)
qed

lemma fadd_FinI:
  assumes "c = of_int m * pow2 k" and "2 ^ 52 \<le> \<bar>m\<bar>" and "\<bar>m\<bar> < 2 ^ 53"
    and "- 1074 \<le> k" and "k \<le> 971"
    and "pow2 (k + 52) \<le> \<bar>a + b\<bar>" and "\<bar>a + b - c\<bar> * 2 < pow2 k"
  shows "fadd (Fin a) (Fin b) = Fin c"
proof -
  have "0 < pow2 (k + 52)" by simp
  with assms(6) have "a + b \<noteq> 0" by linarith
  then have "fadd (Fin a) (Fin b) = round64 (a + b)" by (simp add: fadd_def)
  with round64_eqI [OF assms] show ?thesis by simp
qed

lemma fsub_FinI:
  assumes "c = of_int m * pow2 k" and "2 ^ 52 \<le> \<bar>m\<bar>" and "\<bar>m\<bar> < 2 ^ 53"
    and "- 1074 \<le> k" and "k \<le> 971"
    and "pow2 (k + 52) \<le> \<bar>a - b\<bar>" and "\<bar>a - b - c\<bar> * 2 < pow2 k"
  shows "fsub (Fin a) (Fin b) = Fin c"
proof -
  have "0 < pow2 (k + 52)" by simp
  with assms(6) have nz: "a - b \<noteq> 0" by linarith
  have "fsub (Fin a) (Fin b) = round64 (a - b)"
  proof (cases "b = 0")
    case True
    with nz show ?thesis by (simp add: fsub_def fadd_def)
  next
    case False
    with nz show ?thesis by (simp add: fsub_def fadd_def)
  qed
  with round64_eqI [OF assms] show ?thesis by simp
qed

lemma fmul_FinI:
  assumes "c = of_int m * pow2 k" and "2 ^ 52 \<le> \<bar>m\<bar>" and "\<bar>m\<bar> < 2 ^ 53"
    and "- 1074 \<le> k" and "k \<le> 971"
    and "pow2 (k + 52) \<le> \<bar>a * b\<bar>" and "\<bar>a * b - c\<bar> * 2 < pow2 k"
  shows "fmul (Fin a) (Fin b) = Fin c"
proof -
  have "0 < pow2 (k + 52)" by simp
  with assms(6) have "a * b \<noteq> 0" by linarith
  then have "fmul (Fin a) (Fin b) = round64 (a * b)" by (simp add: fmul_def)
  with round64_eqI [OF assms] show ?thesis by simp
qed

lemma fdiv_FinI:
  assumes "c = of_int m * pow2 k" and "2 ^ 52 \<le> \<bar>m\<bar>" and "\<bar>m\<bar> < 2 ^ 53"
    and "- 1074 \<le> k" and "k \<le> 971"
    and "pow2 (k + 52) \<le> \<bar>a / b\<bar>" and "\<bar>a / b - c\<bar> * 2 < pow2 k"
  shows "fdiv (Fin a) (Fin b) = Fin c"
proof -
  have "0 < pow2 (k + 52)" by simp
  with assms(6) have "a / b \<noteq> 0" by linarith
  then have "a \<noteq> 0" "b \<noteq> 0" by auto
  then have "fdiv (Fin a) (Fin b) = round64 (a / b)" by (simp add: fdiv_def)
  with round64_eqI [OF assms] show ?thesis by simp
qed

lemma fadd_zero: "a + b = 0 \<Longrightarrow> fadd (Fin a) (Fin b) = Fin 0"
  by (auto simp: fadd_def zero_of_def)

lemma fsub_zero: "a = b \<Longrightarrow> fsub (Fin a) (Fin b) = Fin 0"
  by (auto simp: fsub_def fadd_def zero_of_def)

lemma fmul_zero: "a * b = 0 \<Longrightarrow> fmul (Fin a) (Fin b) = zero_of ((a < 0) \<noteq> (b < 0))"
  by (simp add: fmul_def)

lemma fdiv_zero: "a = 0 \<Longrightarrow> b \<noteq> 0 \<Longrightarrow> fdiv (Fin a) (Fin b) = zero_of (b < 0)"
  by (simp add: fdiv_def)

section \<open>Decoding the action\<close>

lemma trunc_ge: "2 \<le> q \<Longrightarrow> 2 \<le> trunc q"
  by (simp add: trunc_def le_floor_iff)

lemma trunc_le: "q \<le> - 1 \<Longrightarrow> trunc q \<le> - 1"
  by (simp add: trunc_def ceiling_le_iff)

lemma action_threshold:
  "real_of_int (2 ^ 1026 - 2 ^ 972) / 4 = pow2 1024 - pow2 970"
proof -
  have "pow2 1026 = 4 * pow2 1024" "pow2 972 = 4 * pow2 970"
    using pow2_add [of 2 1024] pow2_add [of 2 970] by (simp_all add: pow2_def)
  moreover have "real_of_int (2 ^ 1026 - 2 ^ 972) = pow2 1026 - pow2 972"
    by (simp add: pow2_def)
  ultimately show ?thesis by simp
qed

lemma action_type_ge8:
  assumes "8 \<le> action" and "action < 2 ^ 1026 - 2 ^ 972"
  shows "\<exists>t. action_type action = Inr t \<and> 2 \<le> t"
proof -
  define x where "x = real_of_int action / 4"
  from assms(1) have "2 \<le> x" by (simp add: x_def)
  moreover from assms(2) have "real_of_int action < real_of_int (2 ^ 1026 - 2 ^ 972)"
    by (simp only: of_int_less_iff)
  then have "x < real_of_int (2 ^ 1026 - 2 ^ 972) / 4" by (simp add: x_def)
  then have "x < pow2 1024 - pow2 970" by (simp only: action_threshold)
  ultimately obtain y where "round64 x = Fin y" "2 \<le> y" using round64_ge2 by blast
  then show ?thesis by (simp add: action_type_def x_def [symmetric] trunc_ge)
qed

lemma action_type_overflow:
  assumes "2 ^ 1026 - 2 ^ 972 \<le> action"
  shows "action_type action = Inl OverflowError"
proof -
  define x where "x = real_of_int action / 4"
  from assms have "real_of_int (2 ^ 1026 - 2 ^ 972) \<le> real_of_int action"
    by (simp only: of_int_le_iff)
  then have "real_of_int (2 ^ 1026 - 2 ^ 972) / 4 \<le> x" by (simp add: x_def)
  then have "pow2 1024 - pow2 970 \<le> x" by (simp only: action_threshold)
  then have "round64 x = PInf" by (rule round64_overflow)
  then show ?thesis by (simp add: action_type_def x_def [symmetric])
qed

lemma action_type_le_m4:
  assumes "action \<le> - 4" and "- (2 ^ 1026 - 2 ^ 972) < action"
  shows "\<exists>t. action_type action = Inr t \<and> t \<le> - 1"
proof -
  define x where "x = real_of_int (- action) / 4"
  from assms(1) have x1: "1 \<le> x" by (simp add: x_def)
  have neg: "real_of_int action / 4 = - x" by (simp add: x_def)
  from assms(2) have "real_of_int (- action) < real_of_int (2 ^ 1026 - 2 ^ 972)"
    by (simp only: of_int_less_iff)
  then have "x < real_of_int (2 ^ 1026 - 2 ^ 972) / 4" by (simp add: x_def)
  then have small: "x < pow2 1024 - pow2 970" by (simp only: action_threshold)
  have "\<exists>y. round64 x = Fin y \<and> 1 \<le> y"
  proof (cases "2 \<le> x")
    case True
    with small obtain y where "round64 x = Fin y" "2 \<le> y" using round64_ge2 by blast
    then show ?thesis by auto
  next
    case False
    define e where "e = expo x"
    from x1 have pos: "0 < x" by simp
    then have nz: "x \<noteq> 0" by simp
    from expo_bounds [OF nz] pos have b: "pow2 e \<le> x" "x < pow2 (e + 1)" by (simp_all add: e_def)
    have "pow2 0 = 1" by (simp add: pow2_def)
    with x1 b(2) have "pow2 0 < pow2 (e + 1)" by linarith
    then have "0 \<le> e" by (simp add: pow2_less_iff)
    moreover from False b(1) have "pow2 e < pow2 1" by (simp add: pow2_1)
    then have "e < 1" by (simp add: pow2_less_iff)
    ultimately have e0: "e = 0" by simp
    define m where "m = rne (x / pow2 (e - 52))"
    have "- 1022 \<le> e" by (simp add: e0)
    note n = round64_normal [OF pos e_def [symmetric] this m_def]
    define y where "y = of_int m * pow2 (- 52)"
    from n(1) have "real_of_int (2 ^ 52) \<le> real_of_int m" by (simp only: of_int_le_iff)
    then have "2 ^ 52 * pow2 (- 52) \<le> y" unfolding y_def by (intro scale_le) simp_all
    then have y1: "1 \<le> y" by (simp add: pow2_def)
    from n(2) have "real_of_int m \<le> real_of_int (2 ^ 53)" by (simp only: of_int_le_iff)
    then have "y \<le> 2 ^ 53 * pow2 (- 52)" unfolding y_def by (intro scale_le) simp_all
    then have "y \<le> 2" by (simp add: pow2_def)
    then have "\<not> 2 ^ 1024 \<le> y" by simp
    with n(3) have "round64 x = Fin y" by (simp add: y_def e0)
    with y1 show ?thesis by blast
  qed
  then obtain y where y: "round64 x = Fin y" "1 \<le> y" by blast
  then have "round64 (- x) = Fin (- y)" by (intro round64_minus_Fin) simp_all
  with y(2) show ?thesis by (simp add: action_type_def neg trunc_le)
qed

lemma action_type_overflow_neg:
  assumes "action \<le> - (2 ^ 1026 - 2 ^ 972)"
  shows "action_type action = Inl OverflowError"
proof -
  define x where "x = real_of_int (- action) / 4"
  have neg: "real_of_int action / 4 = - x" by (simp add: x_def)
  from assms have "real_of_int (2 ^ 1026 - 2 ^ 972) \<le> real_of_int (- action)"
    by (simp only: of_int_le_iff)
  then have "real_of_int (2 ^ 1026 - 2 ^ 972) / 4 \<le> x" by (simp add: x_def)
  then have "pow2 1024 - pow2 970 \<le> x" by (simp only: action_threshold)
  then have "round64 x = PInf" by (rule round64_overflow)
  then have "round64 (- x) = MInf" by (rule round64_minus_PInf)
  then show ?thesis by (simp add: action_type_def neg)
qed

lemma action_type_buy_codes:
  "action_type (- 3) = Inr 0" "action_type (- 2) = Inr 0" "action_type (- 1) = Inr 0"
  "action_type 0 = Inr 0"
proof -
  have "round64 (- 3 / 4) = Fin (- 3 / 4)"
    by (rule round64_eqI [where m = "- 6755399441055744" and k = "- 53"]) (simp_all add: pow2_def)
  then show "action_type (- 3) = Inr 0" by (simp add: action_type_def trunc_def)
  have "round64 (- 1 / 2) = Fin (- 1 / 2)"
    by (rule round64_eqI [where m = "- 4503599627370496" and k = "- 53"]) (simp_all add: pow2_def)
  then show "action_type (- 2) = Inr 0" by (simp add: action_type_def trunc_def ceiling_def)
  have "round64 (- 1 / 4) = Fin (- 1 / 4)"
    by (rule round64_eqI [where m = "- 4503599627370496" and k = "- 54"]) (simp_all add: pow2_def)
  then show "action_type (- 1) = Inr 0" by (simp add: action_type_def trunc_def ceiling_def)
  have "round64 0 = Fin 0" by (simp add: round64_def rne_def)
  then show "action_type 0 = Inr 0" by (simp add: action_type_def trunc_def)
qed

section \<open>Basic facts about the operations\<close>

lemma take_action_hold_eq:
  assumes "action_type action = Inr t" "t \<noteq> 0" "t \<noteq> 1" "current_price e s = Inr cp"
  shows "take_action e s action =
           Inr (s\<lparr>balance := balance s, btc_held := btc_held s, trades := trades s,
                  net_worths := net_worths s @ [fadd (balance s) (fmul (btc_held s) cp)],
                  account_history := account_history s @ [(balance s, Fin 0, Fin 0, Fin 0, Fin 0)]\<rparr>)"
  using assms by (simp add: take_action_def fgt_def flt_def)

lemma take_action_buy:
  assumes "action_type action = Inr 0" and "current_price e s = Inr cp"
    and "price = fmul cp (fadd (Fin 1) (commission e))"
    and "btc_bought = pymin (fdiv (fmul (balance s) (amount action)) price) (fdiv (balance s) price)"
  shows "\<exists>s'. take_action e s action = Inr s'
           \<and> btc_held s' = fadd (btc_held s) btc_bought
           \<and> balance s' = fsub (balance s) (fmul btc_bought price)"
  using assms by (simp add: take_action_def Let_def)

lemma take_action_Inr:
  assumes "take_action e s action = Inr s1"
  shows "\<exists>cp. current_price e s = Inr cp
           \<and> net_worths s1 = net_worths s @ [fadd (balance s1) (fmul (btc_held s1) cp)]
           \<and> length (account_history s1) = Suc (length (account_history s))
           \<and> current_step s1 = current_step s"
  using assms
  by (auto simp: take_action_def Let_def split: sum.splits prod.splits if_splits)

lemma take_action_Inl:
  assumes "take_action e s action = Inl err"
  shows "current_price e s = Inl err
         \<or> (\<exists>cp. current_price e s = Inr cp) \<and> action_type action = Inl err"
  using assms
  by (auto simp: take_action_def Let_def split: sum.splits prod.splits)

lemma current_price_step: "current_step s1 = current_step s \<Longrightarrow> current_price e s1 = current_price e s"
  by (simp add: current_price_def split: sum.splits)

lemma step_fst:
  "take_action e s action = Inr s1 \<Longrightarrow>
     fst (step e s action) = s1\<lparr>current_step := current_step s1 + 1\<rparr>"
  by (simp add: step_def Let_def split: sum.splits)

lemma step_Inl:
  "take_action e s action = Inl err \<Longrightarrow> step e s action = (s, Inl err)"
  by (simp add: step_def)

lemma step_Inr:
  assumes "step e s action = (s', Inr (obs, r, d))"
  shows "\<exists>s1. take_action e s action = Inr s1 \<and> s' = s1\<lparr>current_step := current_step s1 + 1\<rparr>
           \<and> next_observation e s' = Inr obs \<and> reward e s' = Inr r \<and> done_fn e s' = Inr d"
  using assms by (auto simp: step_def Let_def split: sum.splits)

lemma feq_fabs_PInf: "feq (fabs x) PInf = (x = PInf \<or> x = MInf)"
  by (cases x) (simp_all add: feq_def)

lemma reward_Inr:
  assumes "reward e s = Inr r"
  shows "\<exists>a b rest. rev (net_worths s) = a # b # rest
           \<and> r = (if fsub a b = PInf \<or> fsub a b = MInf then Fin 0 else fsub a b)"
proof -
  from assms obtain close where "column (df e) ''Close'' = Inr close"
    by (cases "column (df e) ''Close''") (simp_all add: reward_def)
  with assms have *: "(case rev (net_worths s) of
                     a # b # _ \<Rightarrow>
                       (let r = fsub a b in Inr (if \<not> feq (fabs r) PInf then r else Fin 0))
                   | _ \<Rightarrow> Inl IndexError) = Inr r"
    by (simp add: reward_def Let_def split: option.splits sum.splits)
  then obtain a b rest where nw: "rev (net_worths s) = a # b # rest"
    by (cases "rev (net_worths s)"; cases "tl (rev (net_worths s))") auto
  with * have "r = (if \<not> feq (fabs (fsub a b)) PInf then fsub a b else Fin 0)"
    by (auto simp: Let_def)
  with nw show ?thesis by (auto simp: feq_fabs_PInf)
qed

lemma fit_transform_length:
  "fit_transform cols = Inr scaled \<Longrightarrow> length scaled = length cols \<and> scaled \<noteq> []
     \<and> (\<forall>i < length cols. length (scaled ! i) = length (cols ! i))"
  by (auto simp: fit_transform_def scale_column_def Let_def split: if_splits)

lemma column_list_length: "length (column_list c) = 5"
  by (cases c) (simp add: column_list_def)

lemma next_observation_Inr:
  assumes "next_observation e s = Inr obs"
  shows "int (length obs) = obs_shape e
         \<and> (\<exists>features forecast bounds history.
               obs = map (float16 e) (features @ forecast @ bounds @ history)
               \<and> length features = length (feature_columns (stationary_df e))
               \<and> length history = 5)"
proof -
  let ?k = "current_step s + n_forecasts e + 1"
  let ?window = "map (\<lambda>c. map (\<lambda>x. if feq (fabs x) PInf then Fin 0 else x) (take ?k (snd c)))
                     (feature_columns (stationary_df e))"
  from assms obtain scaled close predicted_mean conf_int scaled_history where
    sc: "fit_transform ?window = Inr scaled"
    and sh: "fit_transform (map column_list (account_history s)) = Inr scaled_history"
    and len: "int (length (map last scaled @ predicted_mean @ conf_int @ last scaled_history)) = obs_shape e"
    and obs: "obs = map (float16 e) (map last scaled @ predicted_mean @ conf_int @ last scaled_history)"
    by (auto simp: next_observation_def Let_def split: sum.splits prod.splits if_splits)
  from fit_transform_length [OF sc] have l1: "length (map last scaled) = length (feature_columns (stationary_df e))"
    by simp
  from fit_transform_length [OF sh] have ne: "scaled_history \<noteq> []"
    and ls: "length scaled_history = length (account_history s)"
    and li: "\<forall>i < length (map column_list (account_history s)).
               length (scaled_history ! i) = length (map column_list (account_history s) ! i)"
    by simp_all
  from ne have "last scaled_history = scaled_history ! (length scaled_history - 1)"
    by (simp add: last_conv_nth)
  moreover from ne ls have "length scaled_history - 1 < length (map column_list (account_history s))"
    by (cases scaled_history) auto
  ultimately have "length (last scaled_history) = 5"
    using li by (simp add: column_list_length)
  with l1 len obs show ?thesis by (metis length_map)
qed


section \<open>The example market, evaluated\<close>

text \<open>
  The operations the example runs perform, each checked against the definition of the
  rounding: the result is a double within half a unit in the last place of the exact
  value.
\<close>

lemma fadd_NaN [simp]: "fadd NaN y = NaN" "fadd x NaN = NaN"
  by (simp_all add: fadd_def)

lemma fmul_NaN [simp]: "fmul NaN y = NaN" "fmul x NaN = NaN"
  by (simp_all add: fmul_def)

lemma fsub_NaN [simp]: "fsub NaN y = NaN" "fsub x NaN = NaN"
  by (simp_all add: fsub_def)

lemma fadd_PInf: "fadd (Fin a) PInf = PInf" "fadd PInf (Fin a) = PInf"
  by (simp_all add: fadd_def)

lemma fsub_PInf: "fsub PInf (Fin a) = PInf"
  by (simp add: fsub_def fadd_def)

lemma fmul_PInf: "0 < a \<Longrightarrow> fmul (Fin a) PInf = PInf"
  by (simp add: fmul_def inf_of_def)

lemma double_0: "round64 (3 / 10000) = Fin (5534023222112865 / 18446744073709551616)"
  by (rule round64_eqI [where m = 5534023222112865 and k = "- 64"]) (simp_all add: pow2_def)

lemma double_1: "round64 (1 / 100) = Fin (5764607523034235 / 576460752303423488)"
  by (rule round64_eqI [where m = 5764607523034235 and k = "- 59"]) (simp_all add: pow2_def)

lemma double_2: "round64 (1 / 4) = Fin (1 / 4)"
  by (rule round64_eqI [where m = 4503599627370496 and k = "- 54"]) (simp_all add: pow2_def)

lemma double_3: "round64 (1 / 2) = Fin (1 / 2)"
  by (rule round64_eqI [where m = 4503599627370496 and k = "- 53"]) (simp_all add: pow2_def)

lemma double_4: "round64 (3 / 4) = Fin (3 / 4)"
  by (rule round64_eqI [where m = 6755399441055744 and k = "- 53"]) (simp_all add: pow2_def)

lemma double_5: "round64 (19 / 20) = Fin (4278419646001971 / 4503599627370496)"
  by (rule round64_eqI [where m = 8556839292003942 and k = "- 53"]) (simp_all add: pow2_def)

lemma double_6: "round64 (1) = Fin 1"
  by (rule round64_eqI [where m = 4503599627370496 and k = "- 52"]) (simp_all add: pow2_def)

lemma double_7: "round64 (3573 / 50) = Fin (5028550458935869 / 70368744177664)"
  by (rule round64_eqI [where m = 5028550458935869 and k = "- 46"]) (simp_all add: pow2_def)

lemma double_8: "round64 (9999 / 100) = Fin (7036170730324623 / 70368744177664)"
  by (rule round64_eqI [where m = 7036170730324623 and k = "- 46"]) (simp_all add: pow2_def)

lemma double_9: "round64 (19999 / 100) = Fin (879565321755689 / 4398046511104)"
  by (rule round64_eqI [where m = 7036522574045512 and k = "- 45"]) (simp_all add: pow2_def)

lemma fadd_0: "fadd (Fin (- (1 / 549755813888))) (Fin (1373977341517545 / 137438953472)) = Fin (5495909366070179 / 549755813888)"
  by (rule fadd_FinI [where m = 5495909366070179 and k = "- 39"]) (simp_all add: pow2_def)

lemma fadd_1: "fadd (Fin 0) (Fin 25) = Fin 25"
  by (rule fadd_FinI [where m = 7036874417766400 and k = "- 48"]) (simp_all add: pow2_def)

lemma fadd_2: "fadd (Fin 0) (Fin 100) = Fin 100"
  by (rule fadd_FinI [where m = 7036874417766400 and k = "- 46"]) (simp_all add: pow2_def)

lemma fadd_3: "fadd (Fin 0) (Fin (2460740166702753 / 17592186044416)) = Fin (2460740166702753 / 17592186044416)"
  by (rule fadd_FinI [where m = 4921480333405506 and k = "- 45"]) (simp_all add: pow2_def)

lemma fadd_4: "fadd (Fin 0) (Fin 10000) = Fin 10000"
  by (rule fadd_FinI [where m = 5497558138880000 and k = "- 39"]) (simp_all add: pow2_def)

lemma fadd_5: "fadd (Fin 0) (Fin 20000) = Fin 20000"
  by (rule fadd_FinI [where m = 5497558138880000 and k = "- 38"]) (simp_all add: pow2_def)

lemma fadd_6: "fadd (Fin (7686143364045647 / 2305843009213693952)) (Fin 0) = Fin (7686143364045647 / 2305843009213693952)"
  by (rule fadd_FinI [where m = 7686143364045647 and k = "- 61"]) (simp_all add: pow2_def)

lemma fadd_7: "fadd (Fin (5764607523034235 / 576460752303423488)) (Fin 0) = Fin (5764607523034235 / 576460752303423488)"
  by (rule fadd_FinI [where m = 5764607523034235 and k = "- 59"]) (simp_all add: pow2_def)

lemma fadd_8: "fadd (Fin (3002399751580331 / 9007199254740992)) (Fin 0) = Fin (3002399751580331 / 9007199254740992)"
  by (rule fadd_FinI [where m = 6004799503160662 and k = "- 54"]) (simp_all add: pow2_def)

lemma fadd_9: "fadd (Fin (1 / 2)) (Fin 0) = Fin (1 / 2)"
  by (rule fadd_FinI [where m = 4503599627370496 and k = "- 53"]) (simp_all add: pow2_def)

lemma fadd_10: "fadd (Fin 1) (Fin 0) = Fin 1"
  by (rule fadd_FinI [where m = 4503599627370496 and k = "- 52"]) (simp_all add: pow2_def)

lemma fadd_11: "fadd (Fin 1) (Fin (5534023222112865 / 18446744073709551616)) = Fin (4504950707258707 / 4503599627370496)"
  by (rule fadd_FinI [where m = 4504950707258707 and k = "- 52"]) (simp_all add: pow2_def)

lemma fadd_12: "fadd (Fin (5028550458935869 / 70368744177664)) (Fin (5764607523034235 / 576460752303423488)) = Fin (2514627073188823 / 35184372088832)"
  by (rule fadd_FinI [where m = 5029254146377646 and k = "- 46"]) (simp_all add: pow2_def)

lemma fadd_13: "fadd (Fin (7036170730324623 / 70368744177664)) (Fin (5764607523034235 / 576460752303423488)) = Fin 100"
  by (rule fadd_FinI [where m = 7036874417766400 and k = "- 46"]) (simp_all add: pow2_def)

lemma fadd_14: "fadd (Fin (879565321755689 / 4398046511104)) (Fin (5764607523034235 / 576460752303423488)) = Fin 200"
  by (rule fadd_FinI [where m = 7036874417766400 and k = "- 45"]) (simp_all add: pow2_def)

lemma fadd_15: "fadd (Fin 7500) (Fin 2500) = Fin 10000"
  by (rule fadd_FinI [where m = 5497558138880000 and k = "- 39"]) (simp_all add: pow2_def)

lemma fadd_16: "fadd (Fin 10000) (Fin 0) = Fin 10000"
  by (rule fadd_FinI [where m = 5497558138880000 and k = "- 39"]) (simp_all add: pow2_def)

lemma fdiv_17: "fdiv (Fin 1) (Fin 1) = Fin 1"
  by (rule fdiv_FinI [where m = 4503599627370496 and k = "- 52"]) (simp_all add: pow2_def)

lemma fdiv_18: "fdiv (Fin 1) (Fin 2) = Fin (1 / 2)"
  by (rule fdiv_FinI [where m = 4503599627370496 and k = "- 53"]) (simp_all add: pow2_def)

lemma fdiv_19: "fdiv (Fin 1) (Fin 7500) = Fin (2459565876494607 / 18446744073709551616)"
  by (rule fdiv_FinI [where m = 4919131752989214 and k = "- 65"]) (simp_all add: pow2_def)

lemma fdiv_20: "fdiv (Fin 1) (Fin 10000) = Fin (7378697629483821 / 73786976294838206464)"
  by (rule fdiv_FinI [where m = 7378697629483821 and k = "- 66"]) (simp_all add: pow2_def)

lemma fdiv_21: "fdiv (Fin 2500) (Fin 100) = Fin 25"
  by (rule fdiv_FinI [where m = 7036874417766400 and k = "- 48"]) (simp_all add: pow2_def)

lemma fdiv_22: "fdiv (Fin 10000) (Fin 10) = Fin 1000"
  by (rule fdiv_FinI [where m = 8796093022208000 and k = "- 43"]) (simp_all add: pow2_def)

lemma fdiv_23: "fdiv (Fin 10000) (Fin (5030762922621559 / 70368744177664)) = Fin (2460740166702753 / 17592186044416)"
  by (rule fdiv_FinI [where m = 4921480333405506 and k = "- 45"]) (simp_all add: pow2_def)

lemma fdiv_24: "fdiv (Fin 10000) (Fin 100) = Fin 100"
  by (rule fdiv_FinI [where m = 7036874417766400 and k = "- 46"]) (simp_all add: pow2_def)

lemma fmul_25: "fmul (Fin 1) (Fin (1 / 2)) = Fin (1 / 2)"
  by (rule fmul_FinI [where m = 4503599627370496 and k = "- 53"]) (simp_all add: pow2_def)

lemma fmul_26: "fmul (Fin 1) (Fin 1) = Fin 1"
  by (rule fmul_FinI [where m = 4503599627370496 and k = "- 52"]) (simp_all add: pow2_def)

lemma fmul_27: "fmul (Fin 2) (Fin (1 / 2)) = Fin 1"
  by (rule fmul_FinI [where m = 4503599627370496 and k = "- 52"]) (simp_all add: pow2_def)

lemma fmul_28: "fmul (Fin 25) (Fin (2459565876494607 / 18446744073709551616)) = Fin (7686143364045647 / 2305843009213693952)"
  by (rule fmul_FinI [where m = 7686143364045647 and k = "- 61"]) (simp_all add: pow2_def)

lemma fmul_29: "fmul (Fin 25) (Fin 100) = Fin 2500"
  by (rule fmul_FinI [where m = 5497558138880000 and k = "- 41"]) (simp_all add: pow2_def)

lemma fmul_30: "fmul (Fin (2514627073188823 / 35184372088832)) (Fin (4504950707258707 / 4503599627370496)) = Fin (5030762922621559 / 70368744177664)"
  by (rule fmul_FinI [where m = 5030762922621559 and k = "- 46"]) (simp_all add: pow2_def)

lemma fmul_31: "fmul (Fin 100) (Fin (7378697629483821 / 73786976294838206464)) = Fin (5764607523034235 / 576460752303423488)"
  by (rule fmul_FinI [where m = 5764607523034235 and k = "- 59"]) (simp_all add: pow2_def)

lemma fmul_32: "fmul (Fin 100) (Fin 1) = Fin 100"
  by (rule fmul_FinI [where m = 7036874417766400 and k = "- 46"]) (simp_all add: pow2_def)

lemma fmul_33: "fmul (Fin 100) (Fin 100) = Fin 10000"
  by (rule fmul_FinI [where m = 5497558138880000 and k = "- 39"]) (simp_all add: pow2_def)

lemma fmul_34: "fmul (Fin 100) (Fin 200) = Fin 20000"
  by (rule fmul_FinI [where m = 5497558138880000 and k = "- 38"]) (simp_all add: pow2_def)

lemma fmul_35: "fmul (Fin (2460740166702753 / 17592186044416)) (Fin (2514627073188823 / 35184372088832)) = Fin (1373977341517545 / 137438953472)"
  by (rule fmul_FinI [where m = 5495909366070180 and k = "- 39"]) (simp_all add: pow2_def)

lemma fmul_36: "fmul (Fin (2460740166702753 / 17592186044416)) (Fin (5030762922621559 / 70368744177664)) = Fin (5497558138880001 / 549755813888)"
  by (rule fmul_FinI [where m = 5497558138880001 and k = "- 39"]) (simp_all add: pow2_def)

lemma fmul_37: "fmul (Fin 2500) (Fin (2459565876494607 / 18446744073709551616)) = Fin (3002399751580331 / 9007199254740992)"
  by (rule fmul_FinI [where m = 6004799503160662 and k = "- 54"]) (simp_all add: pow2_def)

lemma fmul_38: "fmul (Fin 7500) (Fin (2459565876494607 / 18446744073709551616)) = Fin 1"
  by (rule fmul_FinI [where m = 4503599627370496 and k = "- 52"]) (simp_all add: pow2_def)

lemma fmul_39: "fmul (Fin 10000) (Fin (7378697629483821 / 73786976294838206464)) = Fin 1"
  by (rule fmul_FinI [where m = 4503599627370496 and k = "- 52"]) (simp_all add: pow2_def)

lemma fmul_40: "fmul (Fin 10000) (Fin (1 / 4)) = Fin 2500"
  by (rule fmul_FinI [where m = 5497558138880000 and k = "- 41"]) (simp_all add: pow2_def)

lemma fmul_41: "fmul (Fin 10000) (Fin 1) = Fin 10000"
  by (rule fmul_FinI [where m = 5497558138880000 and k = "- 39"]) (simp_all add: pow2_def)

lemma fsub_42: "fsub (Fin 1) (Fin 0) = Fin 1"
  by (rule fsub_FinI [where m = 4503599627370496 and k = "- 52"]) (simp_all add: pow2_def)

lemma fsub_43: "fsub (Fin 2) (Fin 0) = Fin 2"
  by (rule fsub_FinI [where m = 4503599627370496 and k = "- 51"]) (simp_all add: pow2_def)

lemma fsub_44: "fsub (Fin 7500) (Fin 0) = Fin 7500"
  by (rule fsub_FinI [where m = 8246337208320000 and k = "- 40"]) (simp_all add: pow2_def)

lemma fsub_45: "fsub (Fin 10000) (Fin 0) = Fin 10000"
  by (rule fsub_FinI [where m = 5497558138880000 and k = "- 39"]) (simp_all add: pow2_def)

lemma fsub_46: "fsub (Fin 10000) (Fin 2500) = Fin 7500"
  by (rule fsub_FinI [where m = 8246337208320000 and k = "- 40"]) (simp_all add: pow2_def)

lemma fsub_47: "fsub (Fin 10000) (Fin (5497558138880001 / 549755813888)) = Fin (- (1 / 549755813888))"
  by (rule fsub_FinI [where m = "- 4503599627370496" and k = "- 91"]) (simp_all add: pow2_def)

lemma fsub_48: "fsub (Fin 20000) (Fin 10000) = Fin 10000"
  by (rule fsub_FinI [where m = 5497558138880000 and k = "- 39"]) (simp_all add: pow2_def)

lemmas example_ops =
  double_0 double_1 double_2 double_3 double_4 double_5 double_6 double_7
  double_8 double_9 fadd_0 fadd_1 fadd_2 fadd_3 fadd_4 fadd_5
  fadd_6 fadd_7 fadd_8 fadd_9 fadd_10 fadd_11 fadd_12 fadd_13
  fadd_14 fadd_15 fadd_16 fdiv_17 fdiv_18 fdiv_19 fdiv_20 fdiv_21
  fdiv_22 fdiv_23 fdiv_24 fmul_25 fmul_26 fmul_27 fmul_28 fmul_29
  fmul_30 fmul_31 fmul_32 fmul_33 fmul_34 fmul_35 fmul_36 fmul_37
  fmul_38 fmul_39 fmul_40 fmul_41 fsub_42 fsub_43 fsub_44 fsub_45
  fsub_46 fsub_47 fsub_48

lemmas eval_defs = step_def take_action_def next_observation_def reward_def done_fn_def
  current_price_def column_def np_index_def nrows_def obs_shape_def
  feature_columns_def fit_transform_def scale_column_def column_list_def
  amount_def pymin_def fgt_def flt_def feq_def zero_of_def
  fadd_zero fsub_zero fmul_zero fdiv_zero fadd_PInf fsub_PInf fmul_PInf
  reset_def reset_state_def
  example_env_def example_forecast_def start_state_def bought_state_def held_state_def
  fee_env_def gap_env_def spike_env_def
  Let_def eval_nat_numeral

lemma action_type_examples:
  "action_type 8 = Inr 2" "\<exists>t. action_type 9 = Inr t \<and> t \<noteq> 0 \<and> t \<noteq> 1"
  "\<exists>t. action_type 1000 = Inr t \<and> t \<noteq> 0 \<and> t \<noteq> 1"
proof -
  have "round64 2 = Fin 2"
    by (rule round64_eqI [where m = 4503599627370496 and k = "- 51"]) (simp_all add: pow2_def)
  then show "action_type 8 = Inr 2" by (simp add: action_type_def trunc_def)
  have "\<exists>t. action_type 9 = Inr t \<and> 2 \<le> t" by (rule action_type_ge8) simp_all
  then show "\<exists>t. action_type 9 = Inr t \<and> t \<noteq> 0 \<and> t \<noteq> 1" by auto
  have "\<exists>t. action_type 1000 = Inr t \<and> 2 \<le> t" by (rule action_type_ge8) simp_all
  then show "\<exists>t. action_type 1000 = Inr t \<and> t \<noteq> 0 \<and> t \<noteq> 1" by auto
qed

lemma example_price: "current_price example_env start_state = Inr (Fin 100)"
  by (simp add: eval_defs example_ops)

lemma example_take_action_buy:
  "take_action example_env start_state 0 = Inr (bought_state\<lparr>current_step := 0\<rparr>)"
  by (simp add: eval_defs example_ops action_type_buy_codes)

lemma example_step_hold:
  "step example_env bought_state 8 =
     (held_state,
      Inr ([Fin (1 / 2), Fin 0, Fin 0, Fin 0, Fin 0, Fin 0, Fin 0, Fin 0, Fin 0], Fin 10000, True))"
  by (simp add: eval_defs example_ops action_type_examples)

lemma example_reset:
  "snd (reset example_env held_state) =
     Inr [Fin 1, Fin 0, Fin 0, Fin 0, Fin 1, Fin 0, Fin 0, Fin 0, Fin 0]"
  by (simp add: eval_defs example_ops)

lemma spike_step_hold:
  "step spike_env bought_state 8 =
     (held_state\<lparr>net_worths := [Fin 10000, Fin 10000, PInf]\<rparr>,
      Inr ([Fin 1, Fin 0, Fin 0, Fin 0, Fin 0, Fin 0, Fin 0, Fin 0, Fin 0], Fin 0, True))"
  by (simp add: eval_defs example_ops action_type_examples)

lemma action_type_low_codes:
  "action_type 1 = Inr 0" "action_type 2 = Inr 0" "action_type 3 = Inr 0"
  by (simp_all add: action_type_def trunc_def example_ops)

lemma action_type_negative_buy:
  assumes "- 4 < action" and "action < 0"
  shows "action_type action = Inr 0" and "action_type (action + 4) = Inr 0"
    and "amount (action + 4) = amount action"
proof -
  from assms have "action = - 3 \<or> action = - 2 \<or> action = - 1" by arith
  then show "action_type action = Inr 0" and "action_type (action + 4) = Inr 0"
    by (auto simp: action_type_buy_codes action_type_low_codes)
  show "amount (action + 4) = amount action" by (simp add: amount_def)
qed

lemma next_observation_parts:
  assumes "next_observation e s = Inr obs"
  shows "\<exists>scaled close mean bounds scaled_history.
           fit_transform
             (map (\<lambda>c. map (\<lambda>x. if x = PInf \<or> x = MInf then Fin 0 else x)
                          (take (current_step s + n_forecasts e + 1) (snd c)))
                  (feature_columns (stationary_df e))) = Inr scaled
           \<and> column (stationary_df e) ''Close'' = Inr close
           \<and> sarimax_forecast e (take (current_step s + n_forecasts e + 1) close) (n_forecasts e)
                 (fsub (Fin 1) (confidence_interval e)) = Inr (mean, bounds)
           \<and> fit_transform (map column_list (account_history s)) = Inr scaled_history
           \<and> obs = map (float16 e) (map last scaled @ mean @ bounds @ last scaled_history)"
  using assms
  by (auto simp: next_observation_def Let_def feq_fabs_PInf split: sum.splits prod.splits if_splits)

lemma fee_price:
  "current_price fee_env start_state = Inr (Fin (2514627073188823 / 35184372088832))"
  by (simp add: eval_defs example_ops)

section \<open>The claims\<close>

text \<open>
  C1. Whatever reward strategy the environment was built with, and whatever the
  strategy functions compute, a step that returns gives as reward the difference of the
  last two net worths, with an infinite difference replaced by 0. The strategy's own
  value never reaches the result.
\<close>

theorem step_reward:
  assumes "step e s action = (s', Inr (obs, r, d))"
  shows "\<exists>a b rest. rev (net_worths s') = a # b # rest
           \<and> r = (if fsub a b = PInf \<or> fsub a b = MInf then Fin 0 else fsub a b)"
  using step_Inr [OF assms] reward_Inr by blast

theorem step_reward_witness:
  "step example_env bought_state 8 =
     (held_state,
      Inr ([Fin (1 / 2), Fin 0, Fin 0, Fin 0, Fin 0, Fin 0, Fin 0, Fin 0, Fin 0], Fin 10000, True))
   \<and> (\<exists>a b rest. rev (net_worths held_state) = a # b # rest
         \<and> Fin 10000 = (if fsub a b = PInf \<or> fsub a b = MInf then Fin 0 else fsub a b))"
  using example_step_hold step_reward [OF example_step_hold] by (rule conjI)

text \<open>
  C3. Right after the ledger mutation of a step, the last net worth is the balance plus
  the position valued at the current price, the price being the one \<open>_current_price\<close>
  gives at that moment (the step counter not yet advanced); the step leaves these three
  ledger values as the mutation made them.
\<close>

theorem net_worth_invariant:
  assumes "take_action e s action = Inr s1"
  shows "\<exists>cp. current_price e s1 = Inr cp
           \<and> last (net_worths s1) = fadd (balance s1) (fmul (btc_held s1) cp)
           \<and> net_worths (fst (step e s action)) = net_worths s1
           \<and> balance (fst (step e s action)) = balance s1
           \<and> btc_held (fst (step e s action)) = btc_held s1"
proof -
  from take_action_Inr [OF assms] obtain cp where cp: "current_price e s = Inr cp"
    and nw: "net_worths s1 = net_worths s @ [fadd (balance s1) (fmul (btc_held s1) cp)]"
    and st: "current_step s1 = current_step s" by blast
  from cp have "current_price e s1 = Inr cp" using current_price_step [OF st, of e] by simp
  moreover from nw have "last (net_worths s1) = fadd (balance s1) (fmul (btc_held s1) cp)" by simp
  ultimately show ?thesis by (simp add: step_fst [OF assms])
qed

theorem net_worth_invariant_witness:
  "take_action example_env start_state 0 = Inr (bought_state\<lparr>current_step := 0\<rparr>)
   \<and> (\<exists>cp. current_price example_env (bought_state\<lparr>current_step := 0\<rparr>) = Inr cp
         \<and> last (net_worths (bought_state\<lparr>current_step := 0\<rparr>)) =
             fadd (balance (bought_state\<lparr>current_step := 0\<rparr>))
                  (fmul (btc_held (bought_state\<lparr>current_step := 0\<rparr>)) cp)
         \<and> net_worths (fst (step example_env start_state 0)) =
             net_worths (bought_state\<lparr>current_step := 0\<rparr>)
         \<and> balance (fst (step example_env start_state 0)) =
             balance (bought_state\<lparr>current_step := 0\<rparr>)
         \<and> btc_held (fst (step example_env start_state 0)) =
             btc_held (bought_state\<lparr>current_step := 0\<rparr>))"
  using example_take_action_buy net_worth_invariant [OF example_take_action_buy] by (rule conjI)

text \<open>
  C4. A step that returns reports done exactly when the latest net worth is strictly
  below a tenth of the initial balance or the advanced step counter equals the number of
  rows minus the forecast horizon minus one.
\<close>

theorem step_done:
  assumes "step e s action = (s', Inr (obs, r, d))"
  shows "d = (flt (last (net_worths s')) (fdiv (initial_balance e) (Fin 10))
              \<or> int (current_step s') = int (nrows (df e)) - int (n_forecasts e) - 1)
         \<and> current_step s' = current_step s + 1"
proof -
  from step_Inr [OF assms] obtain s1 where ta: "take_action e s action = Inr s1"
    and s': "s' = s1\<lparr>current_step := current_step s1 + 1\<rparr>" and dn: "done_fn e s' = Inr d"
    by blast
  from take_action_Inr [OF ta] s' have "current_step s' = current_step s + 1" by auto
  moreover from dn have "d = (flt (last (net_worths s')) (fdiv (initial_balance e) (Fin 10))
              \<or> int (current_step s') = int (nrows (df e)) - int (n_forecasts e) - 1)"
    by (simp add: done_fn_def split: if_splits)
  ultimately show ?thesis by simp
qed

theorem step_done_witness:
  "step example_env bought_state 8 =
     (held_state,
      Inr ([Fin (1 / 2), Fin 0, Fin 0, Fin 0, Fin 0, Fin 0, Fin 0, Fin 0, Fin 0], Fin 10000, True))
   \<and> True = (flt (last (net_worths held_state)) (fdiv (initial_balance example_env) (Fin 10))
              \<or> int (current_step held_state)
                  = int (nrows (df example_env)) - int (n_forecasts example_env) - 1)
   \<and> current_step held_state = current_step bought_state + 1"
  using example_step_hold step_done [OF example_step_hold] by (rule conjI)

text \<open>
  C5. An observation returned by reset or by step has exactly
  5 + (number of columns of the price table - 2) + 3 * n_forecasts entries, the declared
  shape: the feature row (one entry per feature column), the forecast and its bounds,
  and five account-history values.
\<close>

theorem observation_shape:
  assumes "snd (reset e s) = Inr obs \<or> snd (step e s action) = Inr (obs, r, d)"
  shows "int (length obs) = 5 + (int (length (df e)) - 2) + 3 * int (n_forecasts e)
         \<and> int (length obs) = obs_shape e
         \<and> (\<exists>features forecast bounds history.
               obs = map (float16 e) (features @ forecast @ bounds @ history)
               \<and> length features = length (feature_columns (stationary_df e))
               \<and> length history = 5)"
proof -
  have "\<exists>s0. next_observation e s0 = Inr obs"
    using assms
  proof
    assume "snd (reset e s) = Inr obs"
    then show ?thesis by (auto simp: reset_def Let_def)
  next
    assume "snd (step e s action) = Inr (obs, r, d)"
    then have "step e s action = (fst (step e s action), Inr (obs, r, d))"
      by (metis prod.collapse)
    from step_Inr [OF this] show ?thesis by blast
  qed
  then obtain s0 where "next_observation e s0 = Inr obs" ..
  from next_observation_Inr [OF this] show ?thesis by (simp add: obs_shape_def)
qed

theorem observation_shape_witness:
  "snd (reset example_env held_state) =
     Inr [Fin 1, Fin 0, Fin 0, Fin 0, Fin 1, Fin 0, Fin 0, Fin 0, Fin 0]
   \<and> int (length [Fin 1, Fin 0, Fin 0, Fin 0, Fin 1, Fin 0, Fin 0, Fin 0, Fin (0::real)]) =
       5 + (int (length (df example_env)) - 2) + 3 * int (n_forecasts example_env)"
  using example_reset observation_shape [OF disjI1 [OF example_reset]] by simp

text \<open>
  C9. reset does not depend on the state it is called in: a second reset gives the same
  state and the same observation as the first, and the state is the initial ledger.
\<close>

theorem reset_idempotent:
  "reset e (fst (reset e s)) = reset e s
   \<and> balance (fst (reset e s)) = initial_balance e
   \<and> btc_held (fst (reset e s)) = Fin 0
   \<and> net_worths (fst (reset e s)) = [initial_balance e]
   \<and> account_history (fst (reset e s)) = [(initial_balance e, Fin 0, Fin 0, Fin 0, Fin 0)]
   \<and> trades (fst (reset e s)) = []
   \<and> current_step (fst (reset e s)) = 0"
  by (simp add: reset_def reset_state_def Let_def)

theorem reset_idempotent_witness:
  "reset example_env (fst (reset example_env held_state)) = reset example_env held_state
   \<and> fst (reset example_env held_state) = start_state"
  using reset_idempotent [of example_env held_state]
  by (simp add: reset_def reset_state_def start_state_def held_state_def example_env_def)

text \<open>
  C6. For the hold codes 8 to 11, \<open>_take_action\<close> leaves balance, position and trade log
  as they were, appends one net worth, and appends one account-history column whose
  bought, cost, sold and proceeds entries are 0.
\<close>

theorem take_action_hold:
  assumes "8 \<le> action" and "action \<le> 11" and "current_price e s = Inr cp"
  shows "\<exists>s'. take_action e s action = Inr s'
           \<and> balance s' = balance s \<and> btc_held s' = btc_held s \<and> trades s' = trades s
           \<and> net_worths s' = net_worths s @ [fadd (balance s) (fmul (btc_held s) cp)]
           \<and> account_history s' = account_history s @ [(balance s, Fin 0, Fin 0, Fin 0, Fin 0)]"
proof -
  from assms(2) have "action < 2 ^ 1026 - 2 ^ 972" by simp
  from action_type_ge8 [OF assms(1) this] obtain t where
    "action_type action = Inr t" "t \<noteq> 0" "t \<noteq> 1" by auto
  from take_action_hold_eq [OF this assms(3)] show ?thesis by simp
qed

theorem take_action_hold_witness:
  "(8::int) \<le> 9 \<and> (9::int) \<le> 11 \<and> current_price example_env start_state = Inr (Fin 100)
   \<and> (\<exists>s'. take_action example_env start_state 9 = Inr s'
         \<and> balance s' = balance start_state \<and> btc_held s' = btc_held start_state
         \<and> trades s' = trades start_state
         \<and> net_worths s' = net_worths start_state
               @ [fadd (balance start_state) (fmul (btc_held start_state) (Fin 100))]
         \<and> account_history s' = account_history start_state
               @ [(balance start_state, Fin 0, Fin 0, Fin 0, Fin 0)])"
  using example_price take_action_hold [of 9 example_env start_state "Fin 100"] by simp

text \<open>
  C10. The claim that step completes for every integer code from 8 upwards fails: the
  code is a Python integer of any size, and for \<open>10 ^ 400\<close> the quotient \<open>action / 4\<close> is
  beyond the range of a float, so \<open>_take_action\<close> raises OverflowError and step does not
  return; the ledger is as it was.
\<close>

theorem step_huge_action_counterexample:
  "step example_env start_state (10 ^ 400) = (start_state, Inl OverflowError)"
proof -
  have "action_type (10 ^ 400) = Inl OverflowError"
    by (rule action_type_overflow) simp
  with example_price show ?thesis by (simp add: step_def take_action_def)
qed

text \<open>
  C10, as the code has it. Every code from 8 up to the largest integer whose quarter
  rounds to a finite float (the codes below \<open>2 ^ 1026 - 2 ^ 972\<close>), also beyond the
  declared twelve, is a hold: when the price lookup, the observation and the reward
  succeed on the held ledger, step returns, with balance, position and trade log
  unchanged and one more net worth and account-history column; and it does exactly what
  code 8 does. From \<open>2 ^ 1026 - 2 ^ 972\<close> on, step raises OverflowError and leaves the
  ledger as it was.
\<close>

theorem step_hold_any_code:
  assumes "8 \<le> action"
    and "current_price e s = Inr cp"
    and "s2 = s\<lparr>net_worths := net_worths s @ [fadd (balance s) (fmul (btc_held s) cp)],
                 account_history := account_history s @ [(balance s, Fin 0, Fin 0, Fin 0, Fin 0)],
                 current_step := current_step s + 1\<rparr>"
    and "next_observation e s2 = Inr obs"
    and "reward e s2 = Inr r"
  shows "if action < 2 ^ 1026 - 2 ^ 972
         then \<exists>d. step e s action = (s2, Inr (obs, r, d))
                \<and> step e s action = step e s 8
                \<and> balance s2 = balance s \<and> btc_held s2 = btc_held s \<and> trades s2 = trades s
                \<and> length (net_worths s2) = length (net_worths s) + 1
                \<and> length (account_history s2) = length (account_history s) + 1
         else step e s action = (s, Inl OverflowError)"
proof (cases "action < 2 ^ 1026 - 2 ^ 972")
  case True
  have "net_worths s2 \<noteq> []" using assms(3) by simp
  then obtain d where d: "done_fn e s2 = Inr d" by (simp add: done_fn_def)
  have run: "step e s a = (s2, Inr (obs, r, d))" if "8 \<le> a" "a < 2 ^ 1026 - 2 ^ 972" for a
  proof -
    from action_type_ge8 [OF that] obtain t where
      "action_type a = Inr t" "t \<noteq> 0" "t \<noteq> 1" by auto
    from take_action_hold_eq [OF this assms(2)]
    have "take_action e s a =
            Inr (s\<lparr>net_worths := net_worths s @ [fadd (balance s) (fmul (btc_held s) cp)],
                   account_history := account_history s @ [(balance s, Fin 0, Fin 0, Fin 0, Fin 0)]\<rparr>)"
      by simp
    with d assms(3,4,5) show ?thesis by (simp add: step_def Let_def)
  qed
  have "(8::int) < 2 ^ 1026 - 2 ^ 972" by simp
  from run [OF assms(1) True] run [OF _ this] assms(3) True show ?thesis by simp
next
  case False
  then have "action_type action = Inl OverflowError"
    by (intro action_type_overflow) simp
  with assms(2) False show ?thesis by (simp add: step_def take_action_def)
qed

theorem step_hold_any_code_witness:
  "(8::int) \<le> 1000 \<and> (1000::int) < 2 ^ 1026 - 2 ^ 972
   \<and> step example_env start_state 1000 =
       (start_state\<lparr>net_worths := [Fin 10000, Fin 10000],
                    account_history := [(Fin 10000, Fin 0, Fin 0, Fin 0, Fin 0),
                                        (Fin 10000, Fin 0, Fin 0, Fin 0, Fin 0)],
                    current_step := 1\<rparr>,
        Inr ([Fin 1, Fin 0, Fin 0, Fin 0, Fin 1, Fin 0, Fin 0, Fin 0, Fin 0], Fin 0, False))"
proof -
  define s2 where "s2 = start_state\<lparr>net_worths := net_worths start_state
                     @ [fadd (balance start_state) (fmul (btc_held start_state) (Fin 100))],
                 account_history := account_history start_state
                     @ [(balance start_state, Fin 0, Fin 0, Fin 0, Fin 0)],
                 current_step := current_step start_state + 1\<rparr>"
  have s2: "s2 = start_state\<lparr>net_worths := [Fin 10000, Fin 10000],
                    account_history := [(Fin 10000, Fin 0, Fin 0, Fin 0, Fin 0),
                                        (Fin 10000, Fin 0, Fin 0, Fin 0, Fin 0)],
                    current_step := 1\<rparr>"
    by (simp add: s2_def start_state_def example_ops fadd_zero fmul_zero zero_of_def)
  have obs: "next_observation example_env s2 =
               Inr [Fin 1, Fin 0, Fin 0, Fin 0, Fin 1, Fin 0, Fin 0, Fin 0, Fin 0]"
    unfolding s2 by (simp add: eval_defs example_ops)
  have rew: "reward example_env s2 = Inr (Fin 0)"
    unfolding s2 by (simp add: eval_defs example_ops)
  have dn: "done_fn example_env s2 = Inr False"
    unfolding s2 by (simp add: eval_defs example_ops)
  have small: "(1000::int) < 2 ^ 1026 - 2 ^ 972" by simp
  from step_hold_any_code [of 1000, OF _ example_price s2_def obs rew] small
  obtain d where st: "step example_env start_state 1000 =
      (s2, Inr ([Fin 1, Fin 0, Fin 0, Fin 0, Fin 1, Fin 0, Fin 0, Fin 0, Fin 0], Fin 0, d))"
    by auto
  then have "done_fn example_env s2 = Inr d"
    using step_Inr by blast
  with dn have "d = False" by simp
  with st s2 small show ?thesis by simp
qed


text \<open>
  C7. The claim that an action code outside the declared range is rejected with the
  ledger untouched fails: code -1 is executed as a buy of a quarter of the balance, and
  step returns.
\<close>

theorem step_invalid_action_counterexample:
  "step example_env start_state (- 1) =
     (\<lparr>balance = Fin 7500, btc_held = Fin 25, net_worths = [Fin 10000, Fin 10000],
       account_history = [(Fin 10000, Fin 0, Fin 0, Fin 0, Fin 0),
                          (Fin 7500, Fin 25, Fin 2500, Fin 0, Fin 0)],
       trades = [Trade 0 (Fin 25) (Fin 2500) ''buy''], current_step = 1\<rparr>,
      Inr ([Fin 1, Fin 0, Fin 0, Fin 0, Fin 1, Fin (7686143364045647 / 2305843009213693952),
            Fin (3002399751580331 / 9007199254740992), Fin 0, Fin 0],
           Fin 0, False))"
  by (simp add: eval_defs example_ops action_type_buy_codes)

text \<open>
  C7, as the code has it. step does not look at the range of the action code. For a code
  outside 0..11 the ledger is left unchanged in two cases only: when the price lookup
  itself raises, and when the price lookup succeeds and the absolute value of the code is
  \<open>2 ^ 1026 - 2 ^ 972\<close> or more, where \<open>action / 4\<close> raises OverflowError. Otherwise the
  code is executed: one net worth and one account-history column are appended and the
  step counter advances; the codes -3 to -1 do what the buy codes 1 to 3 do (the
  position grows by the amount bought and the balance falls by its cost), and every
  other code is a hold that leaves balance, position and trade log as they were.
\<close>

theorem step_no_action_validation:
  assumes "action < 0 \<or> 12 \<le> action"
  shows "case current_price e s of
           Inl err \<Rightarrow> step e s action = (s, Inl err)
         | Inr cp \<Rightarrow>
             if 2 ^ 1026 - 2 ^ 972 \<le> \<bar>action\<bar> then step e s action = (s, Inl OverflowError)
             else length (net_worths (fst (step e s action))) = length (net_worths s) + 1
               \<and> length (account_history (fst (step e s action))) = length (account_history s) + 1
               \<and> current_step (fst (step e s action)) = current_step s + 1
               \<and> (if - 4 < action \<and> action < 0
                   then step e s action = step e s (action + 4)
                     \<and> (let price = fmul cp (fadd (Fin 1) (commission e));
                             btc_bought = pymin (fdiv (fmul (balance s) (amount action)) price)
                                                (fdiv (balance s) price)
                         in btc_held (fst (step e s action)) = fadd (btc_held s) btc_bought
                          \<and> balance (fst (step e s action)) = fsub (balance s) (fmul btc_bought price))
                   else balance (fst (step e s action)) = balance s
                     \<and> btc_held (fst (step e s action)) = btc_held s
                     \<and> trades (fst (step e s action)) = trades s)"
proof (cases "current_price e s")
  case (Inl err)
  then show ?thesis by (simp add: step_def take_action_def)
next
  case (Inr cp)
  show ?thesis
  proof (cases "2 ^ 1026 - 2 ^ 972 \<le> \<bar>action\<bar>")
    case True
    then have "action_type action = Inl OverflowError"
      using action_type_overflow [of action] action_type_overflow_neg [of action] by linarith
    with Inr True show ?thesis by (simp add: step_def take_action_def)
  next
    case False
    show ?thesis
    proof (cases "- 4 < action \<and> action < 0")
      case True
      then have b: "- 4 < action" "action < 0" by simp_all
      note at = action_type_negative_buy [OF b]
      have same: "take_action e s action = take_action e s (action + 4)"
        by (simp add: take_action_def at split: sum.splits)
      then have eq: "step e s action = step e s (action + 4)" by (simp add: step_def)
      from take_action_buy [OF at(1) Inr refl refl] obtain s1 where
        s1: "take_action e s action = Inr s1"
        and held: "btc_held s1 = fadd (btc_held s)
            (pymin (fdiv (fmul (balance s) (amount action)) (fmul cp (fadd (Fin 1) (commission e))))
                   (fdiv (balance s) (fmul cp (fadd (Fin 1) (commission e)))))"
        and bal: "balance s1 = fsub (balance s)
            (fmul (pymin (fdiv (fmul (balance s) (amount action)) (fmul cp (fadd (Fin 1) (commission e))))
                         (fdiv (balance s) (fmul cp (fadd (Fin 1) (commission e)))))
                  (fmul cp (fadd (Fin 1) (commission e))))"
        by blast
      from take_action_Inr [OF s1] step_fst [OF s1] held bal Inr False True eq
      show ?thesis by (simp add: Let_def)
    next
      case hold: False
      from hold assms False have "action \<le> - 4 \<and> - (2 ^ 1026 - 2 ^ 972) < action
          \<or> 8 \<le> action \<and> action < 2 ^ 1026 - 2 ^ 972" by linarith
      then obtain t where "action_type action = Inr t" "t \<noteq> 0" "t \<noteq> 1"
        using action_type_le_m4 [of action] action_type_ge8 [of action] by fastforce
      from take_action_hold_eq [OF this Inr] have s1: "take_action e s action =
           Inr (s\<lparr>balance := balance s, btc_held := btc_held s, trades := trades s,
                  net_worths := net_worths s @ [fadd (balance s) (fmul (btc_held s) cp)],
                  account_history := account_history s @ [(balance s, Fin 0, Fin 0, Fin 0, Fin 0)]\<rparr>)" .
      from step_fst [OF s1] Inr False hold show ?thesis by auto
    qed
  qed
qed

theorem step_no_action_validation_witness:
  "((- 1 :: int) < 0 \<or> (12 :: int) \<le> - 1)
   \<and> current_price example_env start_state = Inr (Fin 100)
   \<and> length (net_worths (fst (step example_env start_state (- 1))))
       = length (net_worths start_state) + 1
   \<and> length (account_history (fst (step example_env start_state (- 1))))
       = length (account_history start_state) + 1
   \<and> current_step (fst (step example_env start_state (- 1))) = current_step start_state + 1
   \<and> step example_env start_state (- 1) = step example_env start_state 3
   \<and> btc_held (fst (step example_env start_state (- 1))) = Fin 25
   \<and> balance (fst (step example_env start_state (- 1))) = Fin 7500"
proof -
  have h: "(- 1 :: int) < 0 \<or> (12 :: int) \<le> - 1" by simp
  have "btc_held start_state = Fin 0" "balance start_state = Fin 10000"
    "commission example_env = Fin 0"
    by (simp_all add: start_state_def example_env_def)
  with step_no_action_validation [OF h, of example_env start_state] example_price
  show ?thesis by (auto simp: Let_def amount_def pymin_def flt_def fadd_zero example_ops)
qed

text \<open>
  C8. The claim that no returned value is ever nan fails, for the observation and for
  the reward: when prices are missing, a hold returns an observation whose feature entry
  is nan and the reward nan.
\<close>

theorem step_nan_counterexample:
  "step gap_env start_state 8 =
     (\<lparr>balance = Fin 10000, btc_held = Fin 0, net_worths = [Fin 10000, NaN],
       account_history = [(Fin 10000, Fin 0, Fin 0, Fin 0, Fin 0),
                          (Fin 10000, Fin 0, Fin 0, Fin 0, Fin 0)],
       trades = [], current_step = 1\<rparr>,
      Inr ([NaN, Fin 0, Fin 0, Fin 0, Fin 1, Fin 0, Fin 0, Fin 0, Fin 0], NaN, False))"
  by (simp add: eval_defs example_ops action_type_examples)

text \<open>
  C8, as the code has it. Only infinities are replaced, and in two places. The reward
  returned by step is never plus or minus infinity (an infinite net-worth difference is
  replaced by 0); it is nan exactly when the difference of the last two net worths is
  nan. An observation returned by reset or by step is the half-precision cast of the
  last row of the scaled feature window, the forecast, its bounds and the last scaled
  account-history column: the infinite entries of the feature window are replaced by 0
  before the scaling, and nothing is replaced after it, neither in the scaled values
  nor in what the forecaster returns.
\<close>

theorem infinities_only_sanitized:
  assumes "snd (reset e s) = Inr obs \<and> s0 = fst (reset e s)
           \<or> step e s action = (s0, Inr (obs, r, d))"
  shows "(\<exists>scaled close mean bounds scaled_history.
            fit_transform
              (map (\<lambda>c. map (\<lambda>x. if x = PInf \<or> x = MInf then Fin 0 else x)
                           (take (current_step s0 + n_forecasts e + 1) (snd c)))
                   (feature_columns (stationary_df e))) = Inr scaled
            \<and> column (stationary_df e) ''Close'' = Inr close
            \<and> sarimax_forecast e (take (current_step s0 + n_forecasts e + 1) close) (n_forecasts e)
                  (fsub (Fin 1) (confidence_interval e)) = Inr (mean, bounds)
            \<and> fit_transform (map column_list (account_history s0)) = Inr scaled_history
            \<and> obs = map (float16 e) (map last scaled @ mean @ bounds @ last scaled_history))
         \<and> (step e s action = (s0, Inr (obs, r, d)) \<longrightarrow>
              r \<noteq> PInf \<and> r \<noteq> MInf
              \<and> (r = NaN) = (fsub (last (net_worths s0)) (last (butlast (net_worths s0))) = NaN))"
proof -
  have "next_observation e s0 = Inr obs"
    using assms
  proof
    assume "snd (reset e s) = Inr obs \<and> s0 = fst (reset e s)"
    then show ?thesis by (auto simp: reset_def Let_def)
  next
    assume "step e s action = (s0, Inr (obs, r, d))"
    from step_Inr [OF this] show ?thesis by blast
  qed
  note obs = next_observation_parts [OF this]
  have "r \<noteq> PInf \<and> r \<noteq> MInf
        \<and> (r = NaN) = (fsub (last (net_worths s0)) (last (butlast (net_worths s0))) = NaN)"
    if st: "step e s action = (s0, Inr (obs, r, d))"
  proof -
    from step_Inr [OF st] have "reward e s0 = Inr r" by blast
    from reward_Inr [OF this] obtain a b rest where nw: "rev (net_worths s0) = a # b # rest"
      and r: "r = (if fsub a b = PInf \<or> fsub a b = MInf then Fin 0 else fsub a b)" by blast
    from nw have "net_worths s0 = rev rest @ [b, a]" by (simp add: rev_swap [symmetric])
    then have "last (net_worths s0) = a" "last (butlast (net_worths s0)) = b"
      by (simp_all add: butlast_append)
    with r show ?thesis by auto
  qed
  with obs show ?thesis by blast
qed

theorem infinities_only_sanitized_witness:
  "step spike_env bought_state 8 =
     (held_state\<lparr>net_worths := [Fin 10000, Fin 10000, PInf]\<rparr>,
      Inr ([Fin 1, Fin 0, Fin 0, Fin 0, Fin 0, Fin 0, Fin 0, Fin 0, Fin 0], Fin 0, True))
   \<and> fsub PInf (Fin 10000) = PInf
   \<and> Fin 0 \<noteq> PInf \<and> Fin 0 \<noteq> MInf
   \<and> (Fin 0 = NaN) =
       (fsub (last (net_worths (held_state\<lparr>net_worths := [Fin 10000, Fin 10000, PInf]\<rparr>)))
             (last (butlast (net_worths (held_state\<lparr>net_worths := [Fin 10000, Fin 10000, PInf]\<rparr>))))
        = NaN)
   \<and> (\<exists>scaled. fit_transform [[Fin 0, Fin 1, Fin 0, Fin 1]] = Inr scaled
         \<and> [Fin 1, Fin 0, Fin 0, Fin 0, Fin 0, Fin 0, Fin 0, Fin 0, Fin 0]
             = map last scaled @ [Fin 0] @ [Fin 0, Fin 0] @ [Fin 0, Fin 0, Fin 0, Fin 0, Fin 0])"
proof -
  note parts = infinities_only_sanitized [OF disjI2 [OF spike_step_hold]]
  from parts spike_step_hold
  have rew: "Fin 0 \<noteq> PInf \<and> Fin 0 \<noteq> MInf
   \<and> (Fin 0 = NaN) =
       (fsub (last (net_worths (held_state\<lparr>net_worths := [Fin 10000, Fin 10000, PInf]\<rparr>)))
             (last (butlast (net_worths (held_state\<lparr>net_worths := [Fin 10000, Fin 10000, PInf]\<rparr>))))
        = NaN)" by (elim conjE impE) simp_all
  from conjunct1 [OF parts]
  have "\<exists>scaled. fit_transform [[Fin 0, Fin 1, Fin 0, Fin 1]] = Inr scaled
         \<and> [Fin 1, Fin 0, Fin 0, Fin 0, Fin 0, Fin 0, Fin 0, Fin 0, Fin 0]
             = map last scaled @ [Fin 0] @ [Fin 0, Fin 0] @ [Fin 0, Fin 0, Fin 0, Fin 0, Fin 0]"
    by (auto simp: eval_defs example_ops)
  with rew spike_step_hold show ?thesis by (simp add: fsub_PInf)
qed

text \<open>
  C2. With the default commission of 0.0003 and the current price 71.47, buying with the
  whole balance of 10000 (code 0) leaves a negative balance. The size of the purchase is
  capped at \<open>balance / price\<close>, but the quotient is rounded, and its product with the
  price, rounded again, is 10000.000000000002: the cost exceeds the balance by one unit
  in the last place.
\<close>

theorem take_action_negative_balance:
  "balance start_state = Fin 10000 \<and> btc_held start_state = Fin 0
   \<and> commission fee_env = round64 (3 / 10000)
   \<and> current_price fee_env start_state = Inr (Fin (2514627073188823 / 35184372088832))
   \<and> take_action fee_env start_state 0 =
       Inr \<lparr>balance = Fin (- (1 / 549755813888)),
            btc_held = Fin (2460740166702753 / 17592186044416),
            net_worths = [Fin 10000, Fin (5495909366070179 / 549755813888)],
            account_history =
              [(Fin 10000, Fin 0, Fin 0, Fin 0, Fin 0),
               (Fin (- (1 / 549755813888)), Fin (2460740166702753 / 17592186044416),
                Fin (5497558138880001 / 549755813888), Fin 0, Fin 0)],
            trades = [Trade 0 (Fin (2460740166702753 / 17592186044416))
                              (Fin (5497558138880001 / 549755813888)) ''buy''],
            current_step = 0\<rparr>
   \<and> flt (Fin (- (1 / 549755813888))) (Fin 0)"
proof -
  have "take_action fee_env start_state 0 =
       Inr \<lparr>balance = Fin (- (1 / 549755813888)),
            btc_held = Fin (2460740166702753 / 17592186044416),
            net_worths = [Fin 10000, Fin (5495909366070179 / 549755813888)],
            account_history =
              [(Fin 10000, Fin 0, Fin 0, Fin 0, Fin 0),
               (Fin (- (1 / 549755813888)), Fin (2460740166702753 / 17592186044416),
                Fin (5497558138880001 / 549755813888), Fin 0, Fin 0)],
            trades = [Trade 0 (Fin (2460740166702753 / 17592186044416))
                              (Fin (5497558138880001 / 549755813888)) ''buy''],
            current_step = 0\<rparr>"
    by (simp add: eval_defs example_ops action_type_buy_codes)
  with fee_price show ?thesis
    by (simp add: start_state_def fee_env_def flt_def)
qed

end
